theory Spec2Isabelle
  imports Main "HOL-Library.Sublist" "HOL-Library.Multiset"
begin

section \<open>The JavaScript values the calendar service computes with\<close>

text \<open>
  The calendar service (\<^verbatim>\<open>parseIcsDate\<close>, \<^verbatim>\<open>parseICS\<close>, \<^verbatim>\<open>filterUpcomingEvents\<close>,
  \<^verbatim>\<open>findActiveEvent\<close>) is embedded function by function.  What it takes from its
  surroundings is made explicit:
  \<^item> the clock: each \<^verbatim>\<open>new Date()\<close> is a reading of the clock, in milliseconds since the
    epoch, and a parameter of the function that takes it.  \<^verbatim>\<open>parseICS\<close> reads the clock
    twice, for \<^verbatim>\<open>now\<close> and for \<^verbatim>\<open>expansionLimit\<close>, so it has two parameters \<open>now\<close> and
    \<open>now2\<close>; the two filters read it once;
  \<^item> the time zone: local time is UTC plus \<open>tza\<close> milliseconds, a parameter that is
    constant, as on a host without daylight-saving transitions;
  \<^item> the collation \<^verbatim>\<open>localeCompare\<close> of the final sort, a parameter.
  Strings are lists of 8-bit code units.  A number is an integer or \<open>NaN\<close>
  (\<open>None\<close>); a \<^verbatim>\<open>Date\<close> object is its time value, \<open>None\<close> for an Invalid Date.
  Integers are exact here, where JavaScript computes with doubles, which are exact up to
  \<open>2\<^sup>5\<^sup>3\<close>.  The numbers that \<^verbatim>\<open>parseICS\<close> computes with are the digits read by
  \<^verbatim>\<open>parseInt\<close>, date fields of at most four digits and time values; only \<^verbatim>\<open>COUNT\<close> and
  \<^verbatim>\<open>INTERVAL\<close> can be larger, and an interval beyond \<open>2\<^sup>5\<^sup>3\<close> gives an Invalid Date
  exactly or rounded.  The filters read the fields of an event with \<^verbatim>\<open>Number\<close>; what is
  proved about the instants they compute is proved for fields of the shapes
  \<^verbatim>\<open>YYYY-MM-DD\<close> and \<^verbatim>\<open>HH:MM\<close>, where every number has at most four digits.
\<close>

type_synonym number = "int option"
type_synonym Date = "int option"

abbreviation NaN :: number where "NaN \<equiv> None"

datatype error = RangeError

definition numAdd :: "number \<Rightarrow> number \<Rightarrow> number" where
  "numAdd a b = (case a of None \<Rightarrow> None | Some x \<Rightarrow> (case b of None \<Rightarrow> None | Some y \<Rightarrow> Some (x + y)))"

definition numSub :: "number \<Rightarrow> number \<Rightarrow> number" where
  "numSub a b = (case a of None \<Rightarrow> None | Some x \<Rightarrow> (case b of None \<Rightarrow> None | Some y \<Rightarrow> Some (x - y)))"

definition numMul :: "number \<Rightarrow> number \<Rightarrow> number" where
  "numMul a b = (case a of None \<Rightarrow> None | Some x \<Rightarrow> (case b of None \<Rightarrow> None | Some y \<Rightarrow> Some (x * y)))"

text \<open>The relational operators: a comparison with \<open>NaN\<close> is false.\<close>

definition numLe :: "number \<Rightarrow> number \<Rightarrow> bool" where
  "numLe a b = (case a of None \<Rightarrow> False | Some x \<Rightarrow> (case b of None \<Rightarrow> False | Some y \<Rightarrow> x \<le> y))"

definition numLt :: "number \<Rightarrow> number \<Rightarrow> bool" where
  "numLt a b = (case a of None \<Rightarrow> False | Some x \<Rightarrow> (case b of None \<Rightarrow> False | Some y \<Rightarrow> x < y))"

text \<open>\<^verbatim>\<open>x || 0\<close> on a number: \<open>NaN\<close> and \<open>0\<close> are falsy.\<close>

definition orZero :: "number \<Rightarrow> number" where
  "orZero a = (case a of None \<Rightarrow> Some 0 | Some x \<Rightarrow> Some x)"

subsection \<open>Characters and strings\<close>

abbreviation TAB :: char where "TAB \<equiv> CHR 0x09"
abbreviation LF :: char where "LF \<equiv> CHR 0x0A"
abbreviation CR :: char where "CR \<equiv> CHR 0x0D"

definition isDigit :: "char \<Rightarrow> bool" where
  "isDigit c = (48 \<le> (of_char c :: nat) \<and> (of_char c :: nat) \<le> 57)"

definition digitVal :: "char \<Rightarrow> nat" where
  "digitVal c = of_char c - 48"

definition isHexDigit :: "char \<Rightarrow> bool" where
  "isHexDigit c = (isDigit c \<or> c \<in> set ''abcdefABCDEF'')"

definition hexVal :: "char \<Rightarrow> nat" where
  "hexVal c = (if isDigit c then digitVal c
     else if c \<in> set ''abcdef'' then of_char c - 87 else of_char c - 55)"

text \<open>White space and line terminators among the 8-bit code units.\<close>

definition isWhite :: "char \<Rightarrow> bool" where
  "isWhite c = ((of_char c :: nat) \<in> {9, 10, 11, 12, 13, 32, 160})"

definition isLineTerminator :: "char \<Rightarrow> bool" where
  "isLineTerminator c = (c = LF \<or> c = CR)"

definition trim :: "string \<Rightarrow> string" where
  "trim s = rev (dropWhile isWhite (rev (dropWhile isWhite s)))"

text \<open>\<^verbatim>\<open>toUpperCase\<close> and the \<^verbatim>\<open>i\<close> flag of a regular expression on the letters of
  ASCII (the result is only ever compared with words of ASCII letters).\<close>

definition toUpperChar :: "char \<Rightarrow> char" where
  "toUpperChar c =
     (case map_of (zip ''abcdefghijklmnopqrstuvwxyz'' ''ABCDEFGHIJKLMNOPQRSTUVWXYZ'') c of
        Some u \<Rightarrow> u | None \<Rightarrow> c)"

definition toUpperCase :: "string \<Rightarrow> string" where
  "toUpperCase s = map toUpperChar s"

text \<open>\<^verbatim>\<open>s.substring(a, b)\<close> for constants \<open>a \<le> b\<close>.\<close>

definition substring :: "nat \<Rightarrow> nat \<Rightarrow> string \<Rightarrow> string" where
  "substring a b s = take (b - a) (drop a s)"

text \<open>\<^verbatim>\<open>s.split(sep)\<close> for a non-empty separator: the pieces between its occurrences.\<close>

function splitOn :: "string \<Rightarrow> string \<Rightarrow> string list" where
  "splitOn sep s =
     (if s = [] then [[]]
      else if sep \<noteq> [] \<and> prefix sep s then [] # splitOn sep (drop (length sep) s)
      else (case splitOn sep (tl s) of p # ps \<Rightarrow> (hd s # p) # ps | [] \<Rightarrow> [[hd s]]))"
  by pat_completeness auto
termination
  by (relation "measure (\<lambda>(sep, s). length s)") (auto simp: neq_Nil_conv)

declare splitOn.simps [simp del]

text \<open>\<^verbatim>\<open>s.replace(c, '')\<close> for a one-character pattern removes its first occurrence.\<close>

definition replaceFirst :: "char \<Rightarrow> string \<Rightarrow> string" where
  "replaceFirst c s = remove1 c s"

text \<open>Decimal rendering of integers (\<^verbatim>\<open>Number.prototype.toString\<close> below \<open>10\<^sup>2\<^sup>1\<close>).\<close>

definition digitChar :: "nat \<Rightarrow> char" where
  "digitChar n = ''0123456789'' ! n"

fun showNat :: "nat \<Rightarrow> string" where
  "showNat n = (if n < 10 then [digitChar n] else showNat (n div 10) @ [digitChar (n mod 10)])"

declare showNat.simps [simp del]

text \<open>The same digits for a non-negative \<open>int\<close>, computed on \<open>int\<close>.\<close>

function showDigits :: "int \<Rightarrow> string" where
  "showDigits n =
     (if n < 10 then [digitChar (nat n)]
      else showDigits (n div 10) @ [digitChar (nat (n mod 10))])"
  by pat_completeness auto
termination
  by (relation "measure nat") auto

declare showDigits.simps [simp del]

definition showInt :: "int \<Rightarrow> string" where
  "showInt i = (if i < 0 then CHR ''-'' # showDigits (- i) else showDigits i)"

definition showNumber :: "number \<Rightarrow> string" where
  "showNumber a = (case a of None \<Rightarrow> ''NaN'' | Some i \<Rightarrow> showInt i)"

definition padStart :: "nat \<Rightarrow> char \<Rightarrow> string \<Rightarrow> string" where
  "padStart n c s = replicate (n - length s) c @ s"

definition readDigits :: "nat \<Rightarrow> (char \<Rightarrow> nat) \<Rightarrow> string \<Rightarrow> nat" where
  "readDigits radix val s = foldl (\<lambda>a c. radix * a + val c) 0 s"

text \<open>
  \<^verbatim>\<open>parseInt(s)\<close> without a radix: leading white space, a sign, a \<^verbatim>\<open>0x\<close> prefix, then the
  longest run of digits; \<open>NaN\<close> when that run is empty.
\<close>

definition parseInt :: "string \<Rightarrow> number" where
  "parseInt s =
     (let t = dropWhile isWhite s;
          neg = (t \<noteq> [] \<and> hd t = CHR ''-'');
          u = (if t \<noteq> [] \<and> (hd t = CHR ''-'' \<or> hd t = CHR ''+'') then tl t else t);
          hex = (prefix ''0x'' u \<or> prefix ''0X'' u);
          w = (if hex then drop 2 u else u);
          ds = (if hex then takeWhile isHexDigit w else takeWhile isDigit w);
          n = (if hex then readDigits 16 hexVal ds else readDigits 10 digitVal ds)
      in if ds = [] then NaN else Some (if neg then - int n else int n))"

text \<open>
  \<^verbatim>\<open>Number(s)\<close> on a string: an optionally signed run of decimal digits, with white
  space around it, has its value, and a blank string is \<open>0\<close>.  Every other string is
  \<open>NaN\<close> here.  JavaScript also reads a fraction, an exponent, a radix prefix and
  \<^verbatim>\<open>Infinity\<close>, with values that need not be integers: on such a string this definition
  is not JavaScript's \<^verbatim>\<open>Number\<close>.  The fields of the data model (\<^verbatim>\<open>HH:MM\<close>,
  \<^verbatim>\<open>YYYY-MM-DD\<close>) are runs of digits, and every statement below about a value read with
  \<open>Number\<close> is about fields of these shapes or about given sample events.
\<close>

definition Number :: "string \<Rightarrow> number" where
  "Number s =
     (let t = trim s;
          neg = (t \<noteq> [] \<and> hd t = CHR ''-'');
          u = (if t \<noteq> [] \<and> (hd t = CHR ''-'' \<or> hd t = CHR ''+'') then tl t else t)
      in if t = [] then Some 0
         else if u \<noteq> [] \<and> list_all isDigit u
           then Some (if neg then - int (readDigits 10 digitVal u) else int (readDigits 10 digitVal u))
         else NaN)"

text \<open>The element at index \<open>k\<close> of \<^verbatim>\<open>s.split(c).map(Number)\<close>; a missing element is
  \<^verbatim>\<open>undefined\<close>, which every later use converts to \<open>NaN\<close>.\<close>

definition numberField :: "string list \<Rightarrow> nat \<Rightarrow> number" where
  "numberField parts k = (if k < length parts then Number (parts ! k) else NaN)"

subsection \<open>Time values and the calendar\<close>

text \<open>
  The day and time arithmetic of ECMAScript's \<^verbatim>\<open>Date\<close>: a time value counts the
  milliseconds since 1970-01-01T00:00:00Z; \<open>div\<close> and \<open>mod\<close> on \<open>int\<close> are the floor
  and the non-negative remainder the standard asks for.
\<close>

definition msPerDay :: int where "msPerDay = 86400000"
definition msPerHour :: int where "msPerHour = 3600000"
definition msPerMinute :: int where "msPerMinute = 60000"
definition msPerSecond :: int where "msPerSecond = 1000"

definition Day :: "int \<Rightarrow> int" where
  "Day t = t div msPerDay"

definition TimeWithinDay :: "int \<Rightarrow> int" where
  "TimeWithinDay t = t mod msPerDay"

definition DayFromYear :: "int \<Rightarrow> int" where
  "DayFromYear y = 365 * (y - 1970) + (y - 1969) div 4 - (y - 1901) div 100 + (y - 1601) div 400"

definition InLeapYear :: "int \<Rightarrow> int" where
  "InLeapYear y = (if y mod 4 \<noteq> 0 then 0 else if y mod 100 \<noteq> 0 then 1
                   else if y mod 400 \<noteq> 0 then 0 else 1)"

text \<open>The year of a day number, that is the largest \<open>y\<close> with \<open>DayFromYear y \<le> d\<close>: the
  estimate from the mean year length is off by at most one, which the two comparisons
  repair (lemma \<open>YearFromDay_correct\<close> below).\<close>

definition YearFromDay :: "int \<Rightarrow> int" where
  "YearFromDay d =
     (let y = 1970 + (400 * d) div 146097
      in if d < DayFromYear y then y - 1
         else if DayFromYear (y + 1) \<le> d then y + 1 else y)"

definition YearFromTime :: "int \<Rightarrow> int" where
  "YearFromTime t = YearFromDay (Day t)"

definition DayWithinYear :: "int \<Rightarrow> int" where
  "DayWithinYear t = Day t - DayFromYear (YearFromTime t)"

text \<open>The number of days of the year before month \<open>m\<close> (0 is January).\<close>

definition monthStart :: "int \<Rightarrow> int \<Rightarrow> int" where
  "monthStart m leap =
     (if m = 0 then 0 else if m = 1 then 31 else if m = 2 then 59 + leap
      else if m = 3 then 90 + leap else if m = 4 then 120 + leap
      else if m = 5 then 151 + leap else if m = 6 then 181 + leap
      else if m = 7 then 212 + leap else if m = 8 then 243 + leap
      else if m = 9 then 273 + leap else if m = 10 then 304 + leap
      else 334 + leap)"

definition MonthFromTime :: "int \<Rightarrow> int" where
  "MonthFromTime t =
     (let d = DayWithinYear t; leap = InLeapYear (YearFromTime t)
      in if d < 31 then 0 else if d < 59 + leap then 1 else if d < 90 + leap then 2
         else if d < 120 + leap then 3 else if d < 151 + leap then 4
         else if d < 181 + leap then 5 else if d < 212 + leap then 6
         else if d < 243 + leap then 7 else if d < 273 + leap then 8
         else if d < 304 + leap then 9 else if d < 334 + leap then 10 else 11)"

definition DateFromTime :: "int \<Rightarrow> int" where
  "DateFromTime t =
     DayWithinYear t - monthStart (MonthFromTime t) (InLeapYear (YearFromTime t)) + 1"

definition WeekDay :: "int \<Rightarrow> int" where
  "WeekDay t = (Day t + 4) mod 7"

definition HourFromTime :: "int \<Rightarrow> int" where
  "HourFromTime t = (t div msPerHour) mod 24"

definition MinFromTime :: "int \<Rightarrow> int" where
  "MinFromTime t = (t div msPerMinute) mod 60"

definition SecFromTime :: "int \<Rightarrow> int" where
  "SecFromTime t = (t div msPerSecond) mod 60"

definition msFromTime :: "int \<Rightarrow> int" where
  "msFromTime t = t mod msPerSecond"

definition MakeTime :: "int \<Rightarrow> int \<Rightarrow> int \<Rightarrow> int \<Rightarrow> int" where
  "MakeTime h m s milli = h * msPerHour + m * msPerMinute + s * msPerSecond + milli"

text \<open>The day number of the \<open>dt\<close>-th day of month \<open>m\<close> of year \<open>y\<close>; months outside
  0..11 carry into the year, days outside the month into the neighbouring months.\<close>

definition MakeDay :: "int \<Rightarrow> int \<Rightarrow> int \<Rightarrow> int" where
  "MakeDay y m dt =
     (let ym = y + m div 12; mn = m mod 12
      in DayFromYear ym + monthStart mn (InLeapYear ym) + dt - 1)"

definition MakeDate :: "int \<Rightarrow> int \<Rightarrow> int" where
  "MakeDate day time = day * msPerDay + time"

definition LocalTime :: "int \<Rightarrow> int \<Rightarrow> int" where
  "LocalTime tza t = t + tza"

definition UTC :: "int \<Rightarrow> int \<Rightarrow> int" where
  "UTC tza t = t - tza"

definition TimeClip :: "int \<Rightarrow> Date" where
  "TimeClip t = (if \<bar>t\<bar> > 8640000000000000 then None else Some t)"

text \<open>\<^verbatim>\<open>new Date(year, month, day, hours, minutes, seconds)\<close>: the fields are local time;
  a year from 0 to 99 means 1900 + year; any \<open>NaN\<close> field gives an Invalid Date.  The
  day and the time are added up exactly.  An engine does the same while the fields are
  integers below \<open>2\<^sup>5\<^sup>3\<close> and the year is in the range it accepts; beyond that it
  gives an Invalid Date also where a huge day and a huge negative time cancel out
  here.  Fields of at most four digits, which is what the decoder passes and what the
  statements about the filters assume, are far inside that range.\<close>

definition newDate :: "int \<Rightarrow> number \<Rightarrow> number \<Rightarrow> number \<Rightarrow> number \<Rightarrow> number \<Rightarrow> number \<Rightarrow> Date" where
  "newDate tza year month day hours minutes seconds =
     (case year of None \<Rightarrow> None | Some y \<Rightarrow>
      case month of None \<Rightarrow> None | Some m \<Rightarrow>
      case day of None \<Rightarrow> None | Some d \<Rightarrow>
      case hours of None \<Rightarrow> None | Some h \<Rightarrow>
      case minutes of None \<Rightarrow> None | Some mi \<Rightarrow>
      case seconds of None \<Rightarrow> None | Some s \<Rightarrow>
        (let yr = (if 0 \<le> y \<and> y \<le> 99 then 1900 + y else y)
         in TimeClip (UTC tza (MakeDate (MakeDay yr m d) (MakeTime h mi s 0)))))"

text \<open>\<^verbatim>\<open>new Date(ms)\<close> from a number.\<close>

definition dateOfNumber :: "number \<Rightarrow> Date" where
  "dateOfNumber a = (case a of None \<Rightarrow> None | Some t \<Rightarrow> TimeClip t)"

definition getTime :: "Date \<Rightarrow> number" where
  "getTime d = d"

definition getFullYear :: "int \<Rightarrow> Date \<Rightarrow> number" where
  "getFullYear tza d = map_option (\<lambda>t. YearFromTime (LocalTime tza t)) d"

definition getMonth :: "int \<Rightarrow> Date \<Rightarrow> number" where
  "getMonth tza d = map_option (\<lambda>t. MonthFromTime (LocalTime tza t)) d"

definition getDate :: "int \<Rightarrow> Date \<Rightarrow> number" where
  "getDate tza d = map_option (\<lambda>t. DateFromTime (LocalTime tza t)) d"

definition getDay :: "int \<Rightarrow> Date \<Rightarrow> number" where
  "getDay tza d = map_option (\<lambda>t. WeekDay (LocalTime tza t)) d"

definition getHours :: "int \<Rightarrow> Date \<Rightarrow> number" where
  "getHours tza d = map_option (\<lambda>t. HourFromTime (LocalTime tza t)) d"

definition getMinutes :: "int \<Rightarrow> Date \<Rightarrow> number" where
  "getMinutes tza d = map_option (\<lambda>t. MinFromTime (LocalTime tza t)) d"

text \<open>The setters return the new time value of the object they update.\<close>

definition setDate :: "int \<Rightarrow> Date \<Rightarrow> number \<Rightarrow> Date" where
  "setDate tza d date =
     (case d of None \<Rightarrow> None | Some tv \<Rightarrow>
      case date of None \<Rightarrow> None | Some dt \<Rightarrow>
        (let t = LocalTime tza tv
         in TimeClip (UTC tza (MakeDate (MakeDay (YearFromTime t) (MonthFromTime t) dt)
                                        (TimeWithinDay t)))))"

definition setMonth :: "int \<Rightarrow> Date \<Rightarrow> number \<Rightarrow> Date" where
  "setMonth tza d month =
     (case d of None \<Rightarrow> None | Some tv \<Rightarrow>
      case month of None \<Rightarrow> None | Some m \<Rightarrow>
        (let t = LocalTime tza tv
         in TimeClip (UTC tza (MakeDate (MakeDay (YearFromTime t) m (DateFromTime t))
                                        (TimeWithinDay t)))))"

definition setFullYear :: "int \<Rightarrow> Date \<Rightarrow> number \<Rightarrow> Date" where
  "setFullYear tza d year =
     (case year of None \<Rightarrow> None | Some y \<Rightarrow>
        (let t = (case d of None \<Rightarrow> 0 | Some tv \<Rightarrow> LocalTime tza tv)
         in TimeClip (UTC tza (MakeDate (MakeDay y (MonthFromTime t) (DateFromTime t))
                                        (TimeWithinDay t)))))"

text \<open>\<^verbatim>\<open>toISOString\<close> renders the UTC fields and throws a \<^verbatim>\<open>RangeError\<close> on an Invalid
  Date; years outside 0..9999 are written with a sign and six digits.\<close>

definition isoYear :: "int \<Rightarrow> string" where
  "isoYear y =
     (if 0 \<le> y \<and> y \<le> 9999 then padStart 4 (CHR ''0'') (showInt y)
      else (if y < 0 then CHR ''-'' else CHR ''+'') # padStart 6 (CHR ''0'') (showInt \<bar>y\<bar>))"

definition isoString :: "int \<Rightarrow> string" where
  "isoString t =
     isoYear (YearFromTime t) @ ''-'' @
     padStart 2 (CHR ''0'') (showInt (MonthFromTime t + 1)) @ ''-'' @
     padStart 2 (CHR ''0'') (showInt (DateFromTime t)) @ ''T'' @
     padStart 2 (CHR ''0'') (showInt (HourFromTime t)) @ '':'' @
     padStart 2 (CHR ''0'') (showInt (MinFromTime t)) @ '':'' @
     padStart 2 (CHR ''0'') (showInt (SecFromTime t)) @ ''.'' @
     padStart 3 (CHR ''0'') (showInt (msFromTime t)) @ ''Z''"

definition toISOString :: "Date \<Rightarrow> error + string" where
  "toISOString d = (case d of None \<Rightarrow> Inl RangeError | Some t \<Rightarrow> Inr (isoString t))"

section \<open>The date-time decoder\<close>

text \<open>
  \<^verbatim>\<open>parseIcsDate\<close>: a token shorter than eight characters gives the current instant;
  any other token is cut at fixed positions, whatever it contains.
\<close>

definition parseIcsDate :: "int \<Rightarrow> int \<Rightarrow> string \<Rightarrow> Date" where
  "parseIcsDate now tza dateStr =
     (if dateStr = [] \<or> length dateStr < 8 then Some now
      else
        (let year = parseInt (substring 0 4 dateStr);
             month = numSub (parseInt (substring 4 6 dateStr)) (Some 1);
             day = parseInt (substring 6 8 dateStr)
         in if CHR ''T'' \<in> set dateStr then
              (let timePart = replaceFirst (CHR ''Z'') (splitOn ''T'' dateStr ! 1);
                   hour = orZero (parseInt (substring 0 2 timePart));
                   minute = orZero (parseInt (substring 2 4 timePart));
                   second = orZero (parseInt (substring 4 6 timePart))
               in newDate tza year month day hour minute second)
            else newDate tza year month day (Some 0) (Some 0) (Some 0)))"

section \<open>The feed parser and recurrence expander\<close>

subsection \<open>The regular expressions of \<^verbatim>\<open>parseICS\<close>\<close>

text \<open>\<^verbatim>\<open>s.match(re)\<close> without the \<^verbatim>\<open>g\<close> flag: the anchored matcher is tried at every
  start position from the left, and the first success is the match.\<close>

fun firstMatch :: "(string \<Rightarrow> 'a option) \<Rightarrow> string \<Rightarrow> 'a option" where
  "firstMatch m [] = m []"
| "firstMatch m (c # cs) = (case m (c # cs) of Some r \<Rightarrow> Some r | None \<Rightarrow> firstMatch m cs)"

text \<open>\<^verbatim>\<open>NAME(?:;[^:]*)?:\<close> at the head of \<open>s\<close>, returning what follows the colon.  After
  a semicolon the greedy \<^verbatim>\<open>[^:]*\<close> runs to the first colon; no shorter run is followed
  by one.\<close>

definition propertyValue :: "string \<Rightarrow> string \<Rightarrow> string option" where
  "propertyValue name s =
     (if prefix name s then
        (case drop (length name) s of
           [] \<Rightarrow> None
         | c # r \<Rightarrow>
             if c = CHR '':'' then Some r
             else if c = CHR '';'' then
               (case dropWhile (\<lambda>x. x \<noteq> CHR '':'') r of [] \<Rightarrow> None | _ # v \<Rightarrow> Some v)
             else None)
      else None)"

text \<open>\<^verbatim>\<open>(\d{8}T\d{6}Z?|\d{8})\<close> at the head of \<open>v\<close>; with the \<^verbatim>\<open>i\<close> flag (\<open>ci\<close>) the letters
  also match in lower case.\<close>

definition dateToken :: "bool \<Rightarrow> string \<Rightarrow> string option" where
  "dateToken ci v =
     (let isT = (\<lambda>c. c = CHR ''T'' \<or> (ci \<and> c = CHR ''t''));
          isZ = (\<lambda>c. c = CHR ''Z'' \<or> (ci \<and> c = CHR ''z''))
      in if 8 \<le> length v \<and> list_all isDigit (take 8 v) then
           (if 15 \<le> length v \<and> isT (v ! 8) \<and> list_all isDigit (take 6 (drop 9 v))
            then Some (take (if 16 \<le> length v \<and> isZ (v ! 15) then 16 else 15) v)
            else Some (take 8 v))
         else None)"

text \<open>\<^verbatim>\<open>/NAME(?:;[^:]*)?:(.*)/\<close>: the capture runs to the end of the line.\<close>

definition matchLine :: "string \<Rightarrow> string \<Rightarrow> string option" where
  "matchLine name block =
     firstMatch (\<lambda>s. map_option (takeWhile (\<lambda>c. \<not> isLineTerminator c)) (propertyValue name s)) block"

text \<open>\<^verbatim>\<open>/NAME(?:;[^:]*)?:(\d{8}T\d{6}Z?|\d{8})/\<close>.\<close>

definition matchDateProperty :: "string \<Rightarrow> string \<Rightarrow> string option" where
  "matchDateProperty name block =
     firstMatch (\<lambda>s. Option.bind (propertyValue name s) (dateToken False)) block"

text \<open>A keyword of the rule at the head of \<open>s\<close>, compared without regard to case
  (\<open>kw\<close> is written in upper case).\<close>

definition afterKeyword :: "string \<Rightarrow> string \<Rightarrow> string option" where
  "afterKeyword kw s =
     (if length kw \<le> length s \<and> toUpperCase (take (length kw) s) = kw
      then Some (drop (length kw) s) else None)"

text \<open>\<^verbatim>\<open>/FREQ=([^;]+)/i\<close>, \<^verbatim>\<open>/COUNT=(\d+)/i\<close> and \<^verbatim>\<open>/INTERVAL=(\d+)/i\<close>: a keyword and a
  non-empty greedy run.\<close>

definition matchRun :: "string \<Rightarrow> (char \<Rightarrow> bool) \<Rightarrow> string \<Rightarrow> string option" where
  "matchRun kw p rrule =
     firstMatch (\<lambda>s. case afterKeyword kw s of None \<Rightarrow> None
                      | Some v \<Rightarrow> if takeWhile p v = [] then None else Some (takeWhile p v)) rrule"

text \<open>\<^verbatim>\<open>/UNTIL=(\d{8}T\d{6}Z?|\d{8})/i\<close>.\<close>

definition matchUntil :: "string \<Rightarrow> string option" where
  "matchUntil rrule = firstMatch (\<lambda>s. Option.bind (afterKeyword ''UNTIL='' s) (dateToken True)) rrule"

text \<open>\<^verbatim>\<open>icsData.replace(/\r?\n[ \t]/g, '')\<close>: every line break that a space or a tab
  follows is removed together with that character.\<close>

fun unfoldLines :: "string \<Rightarrow> string" where
  "unfoldLines [] = []"
| "unfoldLines (c # s) =
     (if c = CR \<and> 2 \<le> length s \<and> hd s = LF \<and> (s ! 1 = CHR '' '' \<or> s ! 1 = TAB)
        then unfoldLines (drop 2 s)
      else if c = LF \<and> s \<noteq> [] \<and> (hd s = CHR '' '' \<or> hd s = TAB)
        then unfoldLines (tl s)
      else c # unfoldLines s)"

subsection \<open>Events\<close>

record CalendarEvent =
  id_str :: string
  title :: string
  startTime :: string
  endTime :: string
  days :: "number list"
  date :: "string option"
  location :: "string option"
  isExternal :: "bool option"

text \<open>The object literal of \<^verbatim>\<open>addOccurrence\<close> for a valid start instant \<open>t\<close>.\<close>

definition occurrenceEvent ::
  "int \<Rightarrow> nat \<Rightarrow> string \<Rightarrow> string \<Rightarrow> Date \<Rightarrow> int \<Rightarrow> nat \<Rightarrow> CalendarEvent" where
  "occurrenceEvent tza blockIdx ttl loc occEnd t idx =
     \<lparr> id_str = ''ics-'' @ showNat blockIdx @ ''-'' @ showNat idx @ ''-'' @ showNumber (getTime (Some t)),
       title = ttl,
       startTime = padStart 2 (CHR ''0'') (showNumber (getHours tza (Some t))) @ '':'' @
                   padStart 2 (CHR ''0'') (showNumber (getMinutes tza (Some t))),
       endTime = padStart 2 (CHR ''0'') (showNumber (getHours tza occEnd)) @ '':'' @
                 padStart 2 (CHR ''0'') (showNumber (getMinutes tza occEnd)),
       days = [getDay tza (Some t)],
       date = Some (hd (splitOn ''T'' (isoString t))),
       location = Some loc,
       isExternal = Some True \<rparr>"

text \<open>\<^verbatim>\<open>addOccurrence(occStart, idx)\<close>, a closure over \<open>now\<close>, the block's index, title,
  location and duration, and the result array \<open>events\<close>, which it returns extended.
  On an Invalid Date \<^verbatim>\<open>toISOString\<close> throws while the literal is evaluated.\<close>

definition addOccurrence ::
  "int \<Rightarrow> int \<Rightarrow> nat \<Rightarrow> string \<Rightarrow> string \<Rightarrow> number \<Rightarrow> Date \<Rightarrow> nat \<Rightarrow> CalendarEvent list
     \<Rightarrow> error + CalendarEvent list" where
  "addOccurrence now tza blockIdx ttl loc duration occStart idx events =
     (let occEnd = dateOfNumber (numAdd (getTime occStart) duration)
      in if numLt occEnd (Some now) then Inr events
         else (case occStart of
                 None \<Rightarrow> Inl RangeError
               | Some t \<Rightarrow> Inr (events @ [occurrenceEvent tza blockIdx ttl loc occEnd t idx])))"

subsection \<open>Expanding a recurrence rule\<close>

text \<open>The value of \<^verbatim>\<open>count\<close>: \<^verbatim>\<open>Infinity\<close> without a \<^verbatim>\<open>COUNT\<close>, else what \<^verbatim>\<open>parseInt\<close> read.\<close>

datatype count = Infinity | Parsed number

definition belowCount :: "nat \<Rightarrow> count \<Rightarrow> bool" where
  "belowCount iterations c =
     (case c of Infinity \<Rightarrow> True | Parsed n \<Rightarrow> numLt (Some (int iterations)) n)"

text \<open>The \<^verbatim>\<open>if\<close> chain that moves \<^verbatim>\<open>currentStart\<close> on; \<open>None\<close> is its \<^verbatim>\<open>break\<close>.\<close>

definition advance :: "int \<Rightarrow> string \<Rightarrow> number \<Rightarrow> Date \<Rightarrow> Date option" where
  "advance tza freq interval currentStart =
     (if freq = ''DAILY'' then
        Some (setDate tza currentStart (numAdd (getDate tza currentStart) interval))
      else if freq = ''WEEKLY'' then
        Some (setDate tza currentStart (numAdd (getDate tza currentStart) (numMul (Some 7) interval)))
      else if freq = ''MONTHLY'' then
        Some (setMonth tza currentStart (numAdd (getMonth tza currentStart) interval))
      else if freq = ''YEARLY'' then
        Some (setFullYear tza currentStart (numAdd (getFullYear tza currentStart) interval))
      else None)"

text \<open>
  The \<^verbatim>\<open>while\<close> loop of a recurring block, from the state \<open>(currentStart, iterations,
  events)\<close>.  The result is \<open>None\<close> if the loop runs forever, \<open>Some (Inl e)\<close> if it throws
  and \<open>Some (Inr events')\<close> if it ends with the array \<open>events'\<close>.
\<close>

partial_function (option) expandLoop ::
  "int \<Rightarrow> int \<Rightarrow> nat \<Rightarrow> string \<Rightarrow> string \<Rightarrow> number \<Rightarrow> string \<Rightarrow> count \<Rightarrow> Date \<Rightarrow> number \<Rightarrow> Date
     \<Rightarrow> Date \<Rightarrow> nat \<Rightarrow> CalendarEvent list \<Rightarrow> (error + CalendarEvent list) option" where
  "expandLoop now tza blockIdx ttl loc duration freq cnt until interval expansionLimit
       currentStart iterations events =
     (if belowCount iterations cnt \<and> numLe currentStart until \<and> numLe currentStart expansionLimit
      then
        (case addOccurrence now tza blockIdx ttl loc duration
                (dateOfNumber (getTime currentStart)) iterations events of
           Inl e \<Rightarrow> Some (Inl e)
         | Inr events' \<Rightarrow>
             (case advance tza freq interval currentStart of
                None \<Rightarrow> Some (Inr events')
              | Some next \<Rightarrow>
                  if iterations + 1 > 500 then Some (Inr events')
                  else expandLoop now tza blockIdx ttl loc duration freq cnt until interval
                         expansionLimit next (iterations + 1) events'))
      else Some (Inr events))"

subsection \<open>One block, all blocks, the final sort\<close>

text \<open>The callback of \<^verbatim>\<open>veventBlocks.forEach\<close>.  A match is an array, hence truthy
  whatever it captured.  The test \<^verbatim>\<open>!rrule\<close> holds for \<^verbatim>\<open>null\<close> (no \<^verbatim>\<open>RRULE\<close> line) and
  for the empty string (a blank \<^verbatim>\<open>RRULE\<close> value): \<open>rrule\<close> is \<open>[]\<close> in both cases.\<close>

definition processBlock ::
  "int \<Rightarrow> int \<Rightarrow> Date \<Rightarrow> string \<Rightarrow> nat \<Rightarrow> CalendarEvent list
     \<Rightarrow> (error + CalendarEvent list) option" where
  "processBlock now tza expansionLimit block blockIdx events =
     (let summaryMatch = matchLine ''SUMMARY'' block;
          dtStartMatch = matchDateProperty ''DTSTART'' block;
          dtEndMatch = matchDateProperty ''DTEND'' block;
          rruleMatch = matchLine ''RRULE'' block;
          locationMatch = matchLine ''LOCATION'' block
      in case summaryMatch of None \<Rightarrow> Some (Inr events) | Some summary \<Rightarrow>
         case dtStartMatch of None \<Rightarrow> Some (Inr events) | Some dtStart \<Rightarrow>
           (let ttl = trim summary;
                loc = (case locationMatch of Some l \<Rightarrow> trim l | None \<Rightarrow> ''No location'');
                startBase = parseIcsDate now tza dtStart;
                duration = (case dtEndMatch of
                              None \<Rightarrow> Some (60 * 60 * 1000)
                            | Some dtEnd \<Rightarrow>
                                numSub (getTime (parseIcsDate now tza dtEnd)) (getTime startBase));
                rrule = (case rruleMatch of Some r \<Rightarrow> trim r | None \<Rightarrow> [])
            in if rrule = [] then
                 Some (addOccurrence now tza blockIdx ttl loc duration startBase 0 events)
               else
                 (let freqMatch = matchRun ''FREQ='' (\<lambda>c. c \<noteq> CHR '';'') rrule;
                      countMatch = matchRun ''COUNT='' isDigit rrule;
                      untilMatch = matchUntil rrule;
                      intervalMatch = matchRun ''INTERVAL='' isDigit rrule;
                      freq = (case freqMatch of Some f \<Rightarrow> toUpperCase f | None \<Rightarrow> ''WEEKLY'');
                      cnt = (case countMatch of Some c \<Rightarrow> Parsed (parseInt c) | None \<Rightarrow> Infinity);
                      until = (case untilMatch of Some u \<Rightarrow> parseIcsDate now tza u
                               | None \<Rightarrow> expansionLimit);
                      interval = (case intervalMatch of Some i \<Rightarrow> parseInt i | None \<Rightarrow> Some 1)
                  in expandLoop now tza blockIdx ttl loc duration freq cnt until interval
                       expansionLimit (dateOfNumber (getTime startBase)) 0 events)))"

text \<open>\<^verbatim>\<open>forEach\<close> over the blocks with their indices; an exception ends it.\<close>

fun forEachBlock ::
  "int \<Rightarrow> int \<Rightarrow> Date \<Rightarrow> string list \<Rightarrow> nat \<Rightarrow> CalendarEvent list
     \<Rightarrow> (error + CalendarEvent list) option" where
  "forEachBlock now tza expansionLimit [] blockIdx events = Some (Inr events)"
| "forEachBlock now tza expansionLimit (block # rest) blockIdx events =
     (case processBlock now tza expansionLimit block blockIdx events of
        None \<Rightarrow> None
      | Some (Inl e) \<Rightarrow> Some (Inl e)
      | Some (Inr events') \<Rightarrow> forEachBlock now tza expansionLimit rest (blockIdx + 1) events')"

text \<open>The comparator of the final sort, over the collation \<open>localeCompare\<close>.\<close>

definition compareEvents ::
  "(string \<Rightarrow> string \<Rightarrow> int) \<Rightarrow> CalendarEvent \<Rightarrow> CalendarEvent \<Rightarrow> int" where
  "compareEvents localeCompare a b =
     (if date a \<noteq> date b
      then localeCompare (case date a of Some d \<Rightarrow> d | None \<Rightarrow> [])
                         (case date b of Some d \<Rightarrow> d | None \<Rightarrow> [])
      else localeCompare (startTime a) (startTime b))"

text \<open>\<^verbatim>\<open>Array.prototype.sort\<close> is stable; it is modelled by insertion from the right,
  which keeps elements that compare equal in their order.\<close>

fun insertBy :: "('a \<Rightarrow> 'a \<Rightarrow> int) \<Rightarrow> 'a \<Rightarrow> 'a list \<Rightarrow> 'a list" where
  "insertBy cmp x [] = [x]"
| "insertBy cmp x (y # ys) = (if cmp x y \<le> 0 then x # y # ys else y # insertBy cmp x ys)"

definition sortBy :: "('a \<Rightarrow> 'a \<Rightarrow> int) \<Rightarrow> 'a list \<Rightarrow> 'a list" where
  "sortBy cmp xs = foldr (insertBy cmp) xs []"

text \<open>The blocks: the unfolded text is split at the event markers and the first
  piece, the header, is shifted off (\<^verbatim>\<open>split\<close> returns at least one piece).\<close>

definition veventBlocks :: "string \<Rightarrow> string list" where
  "veventBlocks icsData = tl (splitOn ''BEGIN:VEVENT'' (unfoldLines icsData))"

text \<open>\<^verbatim>\<open>parseICS\<close>.  The clock is read for \<^verbatim>\<open>now\<close> (\<open>now\<close>) and read again for
  \<^verbatim>\<open>expansionLimit\<close> (\<open>now2\<close>); \<^verbatim>\<open>expansionLimit.setDate(now.getDate() + 60)\<close> then sets the
  day of the month of the second reading from the day of the month of the first.  The
  decoder is only called on matched tokens, which have at least eight characters, so its
  own reading of the clock is never taken (lemma \<open>parseIcsDate_of_token\<close>).\<close>

definition parseICS ::
  "(string \<Rightarrow> string \<Rightarrow> int) \<Rightarrow> int \<Rightarrow> int \<Rightarrow> int \<Rightarrow> string
     \<Rightarrow> (error + CalendarEvent list) option" where
  "parseICS localeCompare now now2 tza icsData =
     (let expansionLimit = setDate tza (Some now2) (numAdd (getDate tza (Some now)) (Some 60))
      in case forEachBlock now tza expansionLimit (veventBlocks icsData) 0 [] of
           None \<Rightarrow> None
         | Some (Inl e) \<Rightarrow> Some (Inl e)
         | Some (Inr events) \<Rightarrow> Some (Inr (sortBy (compareEvents localeCompare) events)))"

section \<open>The upcoming-window filter\<close>

text \<open>The \<^verbatim>\<open>Date\<close> that the callback of \<^verbatim>\<open>filterUpcomingEvents\<close> builds from the fields
  \<^verbatim>\<open>date\<close> (here \<open>d\<close>) and \<^verbatim>\<open>endTime\<close> of an event.\<close>

definition eventEnd :: "int \<Rightarrow> string \<Rightarrow> string \<Rightarrow> Date" where
  "eventEnd tza d endT =
     (let hm = splitOn '':'' endT; endH = numberField hm 0; endM = numberField hm 1;
          ymd = splitOn ''-'' d; y = numberField ymd 0; m = numberField ymd 1;
          dd = numberField ymd 2
      in newDate tza y (numSub m (Some 1)) dd endH endM (Some 0))"

text \<open>The callback: \<^verbatim>\<open>!event.date\<close> holds for a missing and for an empty date.\<close>

definition keepUpcoming :: "int \<Rightarrow> int \<Rightarrow> CalendarEvent \<Rightarrow> bool" where
  "keepUpcoming now tza event =
     (case date event of
        None \<Rightarrow> True
      | Some d \<Rightarrow> if d = [] then True else numLe (Some now) (eventEnd tza d (endTime event)))"

definition filterUpcomingEvents :: "int \<Rightarrow> int \<Rightarrow> CalendarEvent list \<Rightarrow> CalendarEvent list" where
  "filterUpcomingEvents now tza schedule = filter (keepUpcoming now tza) schedule"

text \<open>\<^verbatim>\<open>findActiveEvent\<close>: \<open>todayIso\<close> is the date part of \<^verbatim>\<open>now.toISOString()\<close>, the UTC
  calendar date; the minutes of the day are local.\<close>

definition todayIso :: "int \<Rightarrow> string" where
  "todayIso now = hd (splitOn ''T'' (isoString now))"

definition currentTimeMins :: "int \<Rightarrow> int \<Rightarrow> number" where
  "currentTimeMins now tza =
     numAdd (numMul (getHours tza (Some now)) (Some 60)) (getMinutes tza (Some now))"

definition clockMins :: "string \<Rightarrow> number" where
  "clockMins hhmm =
     (let hm = splitOn '':'' hhmm; h = numberField hm 0; m = numberField hm 1
      in numAdd (numMul h (Some 60)) m)"

definition isActive :: "int \<Rightarrow> int \<Rightarrow> CalendarEvent \<Rightarrow> bool" where
  "isActive now tza event =
     (if date event \<noteq> Some (todayIso now) then False
      else numLe (clockMins (startTime event)) (currentTimeMins now tza) \<and>
           numLe (currentTimeMins now tza) (clockMins (endTime event)))"

definition findActiveEvent :: "int \<Rightarrow> int \<Rightarrow> CalendarEvent list \<Rightarrow> CalendarEvent option" where
  "findActiveEvent now tza schedule = find (isActive now tza) schedule"

section \<open>Notions of the specification\<close>

text \<open>An event lacks a date when the field is absent or empty.\<close>

definition lacksDate :: "CalendarEvent \<Rightarrow> bool" where
  "lacksDate e = (date e = None \<or> date e = Some [])"

text \<open>The \<^verbatim>\<open>Date\<close> that the callback of \<^verbatim>\<open>filterUpcomingEvents\<close> compares with \<open>now\<close>:
  \<open>eventEnd\<close> on the fields of the event.\<close>

definition endInstant :: "int \<Rightarrow> CalendarEvent \<Rightarrow> Date" where
  "endInstant tza e = eventEnd tza (case date e of Some d \<Rightarrow> d | None \<Rightarrow> []) (endTime e)"

text \<open>The fields of the data model, read without the code: a run of digits as a decimal
  number, a wall-clock time \<^verbatim>\<open>HH:MM\<close> and a calendar date \<^verbatim>\<open>YYYY-MM-DD\<close>.\<close>

fun decimalFrom :: "int \<Rightarrow> string \<Rightarrow> int" where
  "decimalFrom a [] = a"
| "decimalFrom a (c # cs) = decimalFrom (10 * a + (int (of_char c) - 48)) cs"

definition decimal :: "string \<Rightarrow> int" where
  "decimal s = decimalFrom 0 s"

definition isClock :: "string \<Rightarrow> bool" where
  "isClock s = (length s = 5 \<and> list_all isDigit (take 2 s) \<and> s ! 2 = CHR '':'' \<and>
                list_all isDigit (drop 3 s))"

definition clockHour :: "string \<Rightarrow> int" where
  "clockHour s = decimal (take 2 s)"

definition clockMinute :: "string \<Rightarrow> int" where
  "clockMinute s = decimal (drop 3 s)"

definition isDateString :: "string \<Rightarrow> bool" where
  "isDateString d = (length d = 10 \<and> list_all isDigit (take 4 d) \<and> d ! 4 = CHR ''-'' \<and>
                     list_all isDigit (take 2 (drop 5 d)) \<and> d ! 7 = CHR ''-'' \<and>
                     list_all isDigit (drop 8 d))"

definition dateYear :: "string \<Rightarrow> int" where
  "dateYear d = decimal (take 4 d)"

definition dateMonth :: "string \<Rightarrow> int" where
  "dateMonth d = decimal (take 2 (drop 5 d))"

definition dateDay :: "string \<Rightarrow> int" where
  "dateDay d = decimal (drop 8 d)"



text \<open>The local minute of the day at the instant \<open>now\<close>, and that of a wall-clock time.\<close>

definition minuteOfDay :: "int \<Rightarrow> int \<Rightarrow> int" where
  "minuteOfDay now tza = HourFromTime (LocalTime tza now) * 60 + MinFromTime (LocalTime tza now)"

definition minuteOfClock :: "string \<Rightarrow> int" where
  "minuteOfClock s = clockHour s * 60 + clockMinute s"

text \<open>An event is in progress at the instant \<open>now\<close> when its \<^verbatim>\<open>date\<close> is today's date, the
  local calendar date of \<open>now\<close>, and its window \<open>[startTime, endTime]\<close>, in minutes of the
  day, contains the local minute of \<open>now\<close>, both ends included.\<close>

definition isToday :: "int \<Rightarrow> int \<Rightarrow> string \<Rightarrow> bool" where
  "isToday now tza d =
     (isDateString d \<and> YearFromTime (LocalTime tza now) = dateYear d \<and>
      MonthFromTime (LocalTime tza now) + 1 = dateMonth d \<and>
      DateFromTime (LocalTime tza now) = dateDay d)"

definition inProgress :: "int \<Rightarrow> int \<Rightarrow> CalendarEvent \<Rightarrow> bool" where
  "inProgress now tza e =
     (case date e of
        None \<Rightarrow> False
      | Some d \<Rightarrow>
          isToday now tza d \<and> isClock (startTime e) \<and> isClock (endTime e) \<and>
          minuteOfClock (startTime e) \<le> minuteOfDay now tza \<and>
          minuteOfDay now tza \<le> minuteOfClock (endTime e))"

text \<open>The expansion limit that \<^verbatim>\<open>parseICS\<close> computes from its two readings of the clock.\<close>

definition expansionLimitOf :: "int \<Rightarrow> int \<Rightarrow> int \<Rightarrow> Date" where
  "expansionLimitOf now now2 tza =
     setDate tza (Some now2) (numAdd (getDate tza (Some now)) (Some 60))"

text \<open>The event that \<^verbatim>\<open>addOccurrence\<close> pushes for an occurrence that starts at the
  instant \<open>t\<close>: its end is \<open>t\<close> plus the duration of the block.\<close>

definition eventAt :: "int \<Rightarrow> nat \<Rightarrow> string \<Rightarrow> string \<Rightarrow> number \<Rightarrow> int \<Rightarrow> nat \<Rightarrow> CalendarEvent" where
  "eventAt tza blockIdx ttl loc duration t idx =
     occurrenceEvent tza blockIdx ttl loc (dateOfNumber (numAdd (Some t) duration)) t idx"

text \<open>The recurrence rule of a block, as \<^verbatim>\<open>parseICS\<close> reads it: the trimmed value of its
  first \<^verbatim>\<open>RRULE\<close> line; a block is recurring when this is not empty.\<close>

definition rruleOf :: "string \<Rightarrow> string" where
  "rruleOf block = (case matchLine ''RRULE'' block of Some r \<Rightarrow> trim r | None \<Rightarrow> [])"

text \<open>The \<^verbatim>\<open>until\<close> of a recurring block: the decoded \<^verbatim>\<open>UNTIL\<close> of its rule, or the
  expansion limit when the rule has none.\<close>

definition untilOf :: "int \<Rightarrow> int \<Rightarrow> Date \<Rightarrow> string \<Rightarrow> Date" where
  "untilOf now tza expansionLimit block =
     (case matchUntil (rruleOf block) of
        Some u \<Rightarrow> parseIcsDate now tza u
      | None \<Rightarrow> expansionLimit)"

text \<open>Reading an id back: the block index and the occurrence index are the two runs of
  digits after \<^verbatim>\<open>ics-\<close>.\<close>

definition idKey :: "string \<Rightarrow> nat \<times> nat" where
  "idKey s =
     (let r = drop 4 s; bs = takeWhile isDigit r;
          r' = drop (length bs + 1) r; ds = takeWhile isDigit r'
      in (readDigits 10 digitVal bs, readDigits 10 digitVal ds))"

text \<open>What the loop of a recurring block has done when it ends with the array \<open>evs'\<close>,
  having started at iteration \<open>it\<close> with the array \<open>evs\<close>: it has appended the events of
  occurrences \<open>(t, i)\<close> with increasing indices from \<open>it\<close> to 500 and starts within
  \<open>until\<close> and the expansion limit.\<close>

definition loopPost ::
  "int \<Rightarrow> nat \<Rightarrow> string \<Rightarrow> string \<Rightarrow> number \<Rightarrow> Date \<Rightarrow> Date \<Rightarrow> nat \<Rightarrow> CalendarEvent list
     \<Rightarrow> error + CalendarEvent list \<Rightarrow> bool" where
  "loopPost tza b ttl loc dur until lim it evs r =
     (case r of
        Inl e \<Rightarrow> True
      | Inr evs' \<Rightarrow>
          (\<exists>occ. evs' = evs @ map (\<lambda>(t, i). eventAt tza b ttl loc dur t i) occ \<and>
                 sorted_wrt (<) (map snd occ) \<and>
                 list_all (\<lambda>(t, i). it \<le> i \<and> i \<le> max it 500 \<and>
                              numLe (Some t) until \<and> numLe (Some t) lim) occ))"

text \<open>An event generated from one of the blocks \<open>blocks\<close>, which are numbered from
  \<open>b0\<close>: it is the event of an occurrence \<open>(t, i)\<close> of a block \<open>b\<close>, and if that block is
  recurring the start \<open>t\<close> is within the expansion limit and the block's \<^verbatim>\<open>until\<close>.\<close>

definition generatedFrom ::
  "int \<Rightarrow> int \<Rightarrow> Date \<Rightarrow> string list \<Rightarrow> nat \<Rightarrow> CalendarEvent \<Rightarrow> bool" where
  "generatedFrom now tza lim blocks b0 e =
     (\<exists>b ttl loc dur t i.
        e = eventAt tza b ttl loc dur t i \<and> b0 \<le> b \<and> b < b0 + length blocks \<and> i \<le> 500 \<and>
        (rruleOf (blocks ! (b - b0)) = [] \<or>
         (numLe (Some t) lim \<and> numLe (Some t) (untilOf now tza lim (blocks ! (b - b0))))))"

text \<open>What \<^verbatim>\<open>forEach\<close> has done when it ends normally: appended generated events whose
  ids decode to pairwise different (block, occurrence) pairs.\<close>

definition forEachPost ::
  "int \<Rightarrow> int \<Rightarrow> Date \<Rightarrow> string list \<Rightarrow> nat \<Rightarrow> CalendarEvent list
     \<Rightarrow> error + CalendarEvent list \<Rightarrow> bool" where
  "forEachPost now tza lim blocks b0 evs r =
     (case r of
        Inl e \<Rightarrow> True
      | Inr evs' \<Rightarrow>
          (\<exists>new. evs' = evs @ new \<and> list_all (generatedFrom now tza lim blocks b0) new \<and>
                 distinct (map (\<lambda>e. idKey (id_str e)) new)))"

section \<open>Sample inputs\<close>

text \<open>A collation that orders strings by their code units.\<close>

fun codeUnitCompare :: "string \<Rightarrow> string \<Rightarrow> int" where
  "codeUnitCompare [] [] = 0"
| "codeUnitCompare [] (y # ys) = - 1"
| "codeUnitCompare (x # xs) [] = 1"
| "codeUnitCompare (x # xs) (y # ys) =
     (if (of_char x :: nat) < of_char y then - 1
      else if (of_char y :: nat) < of_char x then 1
      else codeUnitCompare xs ys)"

text \<open>The feed of the round-trip example: one non-recurring event.\<close>

definition standupBlock :: string where
  "standupBlock =
     [CR, LF] @ ''SUMMARY:Standup'' @ [CR, LF] @ ''DTSTART:20990101T100000'' @ [CR, LF] @
     ''DTEND:20990101T110000'' @ [CR, LF] @ ''END:VEVENT'' @ [CR, LF] @
     ''END:VCALENDAR'' @ [CR, LF]"

definition standupFeed :: string where
  "standupFeed = ''BEGIN:VCALENDAR'' @ [CR, LF] @ ''BEGIN:VEVENT'' @ standupBlock"

text \<open>A daily rule that does not advance, with neither \<^verbatim>\<open>COUNT\<close> nor \<^verbatim>\<open>UNTIL\<close>, starting
  on 2026-01-05 at 09:00.\<close>

definition stuckBlock :: string where
  "stuckBlock =
     [LF] @ ''SUMMARY:Daily'' @ [LF] @ ''DTSTART:20260105T090000'' @ [LF] @
     ''RRULE:FREQ=DAILY;INTERVAL=0'' @ [LF] @ ''END:VEVENT''"

definition stuckFeed :: string where
  "stuckFeed = ''BEGIN:VEVENT'' @ stuckBlock"

text \<open>Every four weeks from 2026-01-05 at 09:00, until 2027.\<close>

definition fourWeeklyBlock :: string where
  "fourWeeklyBlock =
     [LF] @ ''SUMMARY:Review'' @ [LF] @ ''DTSTART:20260105T090000'' @ [LF] @
     ''RRULE:FREQ=WEEKLY;INTERVAL=4;UNTIL=20270101'' @ [LF] @ ''END:VEVENT''"

definition fourWeeklyFeed :: string where
  "fourWeeklyFeed = ''BEGIN:VEVENT'' @ fourWeeklyBlock"

text \<open>Every three months from 2026-02-01 at 09:00, with neither \<^verbatim>\<open>COUNT\<close> nor \<^verbatim>\<open>UNTIL\<close>.\<close>

definition quarterlyBlock :: string where
  "quarterlyBlock =
     [LF] @ ''SUMMARY:Quarterly'' @ [LF] @ ''DTSTART:20260201T090000'' @ [LF] @
     ''RRULE:FREQ=MONTHLY;INTERVAL=3'' @ [LF] @ ''END:VEVENT''"

definition quarterlyFeed :: string where
  "quarterlyFeed = ''BEGIN:VEVENT'' @ quarterlyBlock"

text \<open>2026-01-31T23:59:59.999Z, the last millisecond of January.\<close>

definition monthEnd :: int where "monthEnd = 1769903999999"


text \<open>2026-01-01T00:00:00Z and 2026-01-01T10:00:00Z.\<close>

definition newYear2026 :: int where "newYear2026 = 1767225600000"
definition tenOClock :: int where "tenOClock = 1767261600000"


definition sampleEvent :: "string \<Rightarrow> string \<Rightarrow> string \<Rightarrow> string \<Rightarrow> CalendarEvent" where
  "sampleEvent i d s f =
     \<lparr> id_str = i, title = ''Standup'', startTime = s, endTime = f, days = [Some 4],
       date = Some d, location = Some ''No location'', isExternal = Some True \<rparr>"


definition nineToTen :: CalendarEvent where
  "nineToTen = sampleEvent ''a'' ''2026-01-01'' ''09:00'' ''10:00''"

definition tenToEleven :: CalendarEvent where
  "tenToEleven = sampleEvent ''b'' ''2026-01-01'' ''10:00'' ''11:00''"

text \<open>2026-01-01T23:00:00Z, which is 10:00 on 2 January 2026 eleven hours ahead of UTC,
  and two events of 2 January.\<close>

definition tenAhead :: int where "tenAhead = 1767308400000"

definition nineToTenAhead :: CalendarEvent where
  "nineToTenAhead = sampleEvent ''a'' ''2026-01-02'' ''09:00'' ''10:00''"

definition tenToElevenAhead :: CalendarEvent where
  "tenToElevenAhead = sampleEvent ''b'' ''2026-01-02'' ''10:00'' ''11:00''"




section \<open>The upcoming-window filter: properties\<close>

lemma keepUpcoming_iff:
  "keepUpcoming now tza e \<longleftrightarrow> lacksDate e \<or> (\<exists>t. endInstant tza e = Some t \<and> now \<le> t)"
  by (cases "date e"; cases "eventEnd tza (the (date e)) (endTime e)")
     (auto simp: keepUpcoming_def lacksDate_def endInstant_def numLe_def)

text \<open>
  Claim C8.  Prune is idempotent: pruning the pruned list again at the same instant
  changes nothing.
\<close>

theorem filterUpcomingEvents_idempotent:
  "filterUpcomingEvents now tza (filterUpcomingEvents now tza schedule) =
     filterUpcomingEvents now tza schedule"
  by (simp add: filterUpcomingEvents_def)

text \<open>
  Claim C10.  The result of Prune is a subsequence of its input: it is obtained by
  deleting elements, so every retained event is an unchanged element of the input, the
  order is kept, and nothing is duplicated or created.
\<close>

theorem filterUpcomingEvents_subseq:
  "subseq (filterUpcomingEvents now tza schedule) schedule"
  by (simp add: filterUpcomingEvents_def)

section \<open>Find-active: properties\<close>

text \<open>\<^verbatim>\<open>find\<close> returns the first event, in the order of the sequence, that the callback
  accepts, and \<^verbatim>\<open>|| null\<close> turns "not found" into "no active event".\<close>

lemma findActiveEvent_first:
  "(findActiveEvent now tza schedule = None \<longleftrightarrow>
      (\<forall>e \<in> set schedule. \<not> isActive now tza e)) \<and>
   (findActiveEvent now tza schedule = Some e \<longleftrightarrow>
      (\<exists>i < length schedule. schedule ! i = e \<and> isActive now tza e \<and>
         (\<forall>j < i. \<not> isActive now tza (schedule ! j))))"
  by (auto simp: findActiveEvent_def find_None_iff find_Some_iff)

text \<open>
  On claim C6.  With the host at UTC the example of the claim holds: of the events
  09:00--10:00 and 10:00--11:00 of today, both in progress at exactly 10:00, the one
  listed first is returned.  With the host eleven hours ahead of UTC, at 10:00 on 2
  January, the same two events of 2 January are both in progress, and the result is
  "no active event": \<^verbatim>\<open>todayIso\<close> is the UTC calendar date of the query, 1 January, while
  the minutes of the day are local.
\<close>

theorem findActiveEvent_today_is_utc_date:
  "inProgress tenOClock 0 nineToTen \<and> inProgress tenOClock 0 tenToEleven \<and>
   findActiveEvent tenOClock 0 [nineToTen, tenToEleven] = Some nineToTen \<and>
   inProgress tenAhead (11 * msPerHour) nineToTenAhead \<and>
   inProgress tenAhead (11 * msPerHour) tenToElevenAhead \<and>
   todayIso tenAhead = ''2026-01-01'' \<and>
   findActiveEvent tenAhead (11 * msPerHour) [nineToTenAhead, tenToElevenAhead] = None"
  by code_simp

section \<open>The decoder: properties\<close>

text \<open>
  Claim C4, as amended.  A token shorter than eight characters, the empty token
  included, decodes to the current instant.
\<close>

theorem parseIcsDate_short_token_is_now:
  "length dateStr < 8 \<Longrightarrow> parseIcsDate now tza dateStr = Some now"
  by (simp add: parseIcsDate_def)

theorem parseIcsDate_short_token_is_now_witness:
  "length ''2025'' < 8 \<and> parseIcsDate newYear2026 0 ''2025'' = Some newYear2026 \<and>
   parseIcsDate newYear2026 0 [] = Some newYear2026"
  using parseIcsDate_short_token_is_now [of "''2025''" newYear2026 0]
        parseIcsDate_short_token_is_now [of "[]" newYear2026 0]
  by simp

text \<open>
  Against claim C4 as stated: the malformed token \<^verbatim>\<open>abcdefgh\<close> has eight characters, so
  it is cut into fields; none is a number and the result is an Invalid Date, not the
  current instant.
\<close>

theorem parseIcsDate_malformed_token_invalid:
  "parseIcsDate newYear2026 0 ''abcdefgh'' = None \<and>
   parseIcsDate newYear2026 0 ''abcdefgh'' \<noteq> Some newYear2026"
  by code_simp

text \<open>The tokens that \<^verbatim>\<open>parseICS\<close> passes to the decoder are matches of
  \<^verbatim>\<open>(\d{8}T\d{6}Z?|\d{8})\<close>, so they have at least eight characters and the decoder does
  not read the clock for them.\<close>

lemma firstMatch_Some: "firstMatch m s = Some r \<Longrightarrow> \<exists>u. m u = Some r"
  by (induction s) (auto split: option.splits)

lemma dateToken_length: "dateToken ci v = Some s \<Longrightarrow> 8 \<le> length s"
  by (auto simp: dateToken_def Let_def split: if_splits)

lemma matchDateProperty_length: "matchDateProperty name block = Some s \<Longrightarrow> 8 \<le> length s"
  unfolding matchDateProperty_def
  by (drule firstMatch_Some) (auto simp: bind_eq_Some_conv dest: dateToken_length)

lemma matchUntil_length: "matchUntil rrule = Some s \<Longrightarrow> 8 \<le> length s"
  unfolding matchUntil_def
  by (drule firstMatch_Some) (auto simp: bind_eq_Some_conv dest: dateToken_length)

lemma parseIcsDate_of_token:
  "8 \<le> length s \<Longrightarrow> parseIcsDate now tza s = parseIcsDate now' tza s"
  by (auto simp: parseIcsDate_def)

section \<open>The feed parser: auxiliary facts\<close>

subsection \<open>Ids can be read back\<close>

lemma digit_cases: "k < 10 \<Longrightarrow> k = 0 \<or> k = 1 \<or> k = 2 \<or> k = 3 \<or> k = 4 \<or> k = 5 \<or> k = 6 \<or> k = 7 \<or> k = 8 \<or> k = (9::nat)"
  by arith

lemma isDigit_digitChar: "k < 10 \<Longrightarrow> isDigit (digitChar k)"
  by (drule digit_cases) (auto simp: isDigit_def digitChar_def)

lemma digitVal_digitChar: "k < 10 \<Longrightarrow> digitVal (digitChar k) = k"
  by (drule digit_cases) (auto simp: digitVal_def digitChar_def)

lemma showNat_digits: "c \<in> set (showNat n) \<Longrightarrow> isDigit c"
proof (induction n rule: showNat.induct)
  case (1 n)
  then show ?case
    by (subst (asm) (2) showNat.simps) (auto simp: isDigit_digitChar split: if_splits)
qed

lemma readDigits_snoc: "readDigits r v (s @ [c]) = r * readDigits r v s + v c"
  by (simp add: readDigits_def)

lemma readDigits_showNat: "readDigits 10 digitVal (showNat n) = n"
proof (induction n rule: showNat.induct)
  case (1 n)
  show ?case
  proof (cases "n < 10")
    case True
    then show ?thesis by (subst showNat.simps) (simp add: readDigits_def digitVal_digitChar)
  next
    case False
    with 1 show ?thesis
      by (subst showNat.simps) (simp add: readDigits_snoc digitVal_digitChar)
  qed
qed

lemma takeWhile_digits_dash:
  "takeWhile isDigit (showNat n @ CHR ''-'' # rest) = showNat n"
proof -
  have "\<not> isDigit (CHR ''-'')" by (simp add: isDigit_def)
  then show ?thesis
    by (simp add: takeWhile_append2 showNat_digits)
qed

lemma id_str_eventAt:
  "id_str (eventAt tza b ttl loc dur t i) = ''ics-'' @ showNat b @ ''-'' @ showNat i @ ''-'' @ showInt t"
  by (simp add: eventAt_def occurrenceEvent_def showNumber_def getTime_def)

text \<open>The \<^verbatim>\<open>date\<close> of a generated event is the date part of the ISO rendering of its start:
  it does not depend on the time zone, and it is the string that \<^verbatim>\<open>findActiveEvent\<close>
  compares with at an instant of the same UTC day.\<close>

lemma date_eventAt: "date (eventAt tza b ttl loc dur t i) = Some (todayIso t)"
  by (simp add: eventAt_def occurrenceEvent_def todayIso_def)

lemma idKey_eventAt: "idKey (id_str (eventAt tza b ttl loc dur t i)) = (b, i)"
  by (simp add: id_str_eventAt idKey_def Let_def takeWhile_digits_dash readDigits_showNat)

subsection \<open>The sort permutes\<close>

lemma mset_insertBy: "mset (insertBy cmp x ys) = add_mset x (mset ys)"
  by (induction ys) auto

lemma mset_sortBy: "mset (sortBy cmp xs) = mset xs"
  by (induction xs) (auto simp: sortBy_def mset_insertBy)

lemma set_sortBy: "set (sortBy cmp xs) = set xs"
  by (metis mset_sortBy set_mset_mset)

lemma length_sortBy: "length (sortBy cmp xs) = length xs"
  by (metis mset_sortBy size_mset)

lemma distinct_map_sortBy: "distinct (map f (sortBy cmp xs)) = distinct (map f xs)"
proof -
  have "mset (map f (sortBy cmp xs)) = mset (map f xs)" by (simp add: mset_sortBy)
  then show ?thesis by (rule mset_eq_imp_distinct_iff)
qed

subsection \<open>The year of a day\<close>

text \<open>\<open>YearFromDay d\<close> is the year \<open>y\<close> with \<open>DayFromYear y \<le> d < DayFromYear (y + 1)\<close>.\<close>

lemma div_bounds: "0 < c \<Longrightarrow> c * (x div c) \<le> x \<and> x < c * (x div c) + (c::int)"
  using pos_mod_sign[of c x] pos_mod_bound[of c x] mult_div_mod_eq[of c x] by linarith

lemma DayFromYear_below:
  assumes "146097 * k \<le> 400 * d"
  shows "DayFromYear (1970 + k - 1) \<le> d"
proof -
  define y where "y = 1970 + k - 1"
  define a where "a = (y - 1969) div 4"
  define b where "b = (y - 1901) div 100"
  define c where "c = (y - 1601) div 400"
  have "4 * a \<le> y - 1969" "y - 1901 < 100 * b + 100" "400 * c \<le> y - 1601"
    using div_bounds[of 4 "y - 1969"] div_bounds[of 100 "y - 1901"] div_bounds[of 400 "y - 1601"]
    by (simp_all add: a_def b_def c_def)
  moreover have "DayFromYear y = 365 * (y - 1970) + a - b + c"
    by (simp add: DayFromYear_def a_def b_def c_def)
  ultimately have "DayFromYear y \<le> d" using assms y_def by (simp add: algebra_simps)
  then show ?thesis by (simp add: y_def)
qed

lemma DayFromYear_above:
  assumes "400 * d < 146097 * k + 146097"
  shows "d < DayFromYear (1970 + k + 2)"
proof -
  define y where "y = 1970 + k + 2"
  define a where "a = (y - 1969) div 4"
  define b where "b = (y - 1901) div 100"
  define c where "c = (y - 1601) div 400"
  have "y - 1969 < 4 * a + 4" "100 * b \<le> y - 1901" "y - 1601 < 400 * c + 400"
    using div_bounds[of 4 "y - 1969"] div_bounds[of 100 "y - 1901"] div_bounds[of 400 "y - 1601"]
    by (simp_all add: a_def b_def c_def)
  moreover have "DayFromYear y = 365 * (y - 1970) + a - b + c"
    by (simp add: DayFromYear_def a_def b_def c_def)
  ultimately have "d < DayFromYear y" using assms y_def by (simp add: algebra_simps)
  then show ?thesis by (simp add: y_def)
qed

lemma YearFromDay_correct:
  "DayFromYear (YearFromDay d) \<le> d \<and> d < DayFromYear (YearFromDay d + 1)"
proof -
  define k where "k = (400 * d) div 146097"
  have k: "146097 * k \<le> 400 * d" "400 * d < 146097 * k + 146097"
    using div_bounds[of 146097 "400 * d"] by (simp_all add: k_def)
  have a: "DayFromYear (1970 + k - 1) \<le> d" using DayFromYear_below[OF k(1)] .
  have b: "d < DayFromYear (1970 + k + 2)" using DayFromYear_above[OF k(2)] .
  have "1970 + k + 1 + 1 = 1970 + k + 2" "1970 + k - 1 + 1 = 1970 + k" by simp_all
  with a b show ?thesis
    unfolding YearFromDay_def Let_def k_def[symmetric] by (auto simp: not_less not_le)
qed


subsection \<open>Adding days to a date\<close>

lemma MonthFromTime_range: "0 \<le> MonthFromTime t \<and> MonthFromTime t \<le> 11"
  by (simp add: MonthFromTime_def Let_def)

lemma MakeDay_of_fields:
  "MakeDay (YearFromTime t) (MonthFromTime t) (DateFromTime t + k) = Day t + k"
proof -
  have "MonthFromTime t div 12 = 0" "MonthFromTime t mod 12 = MonthFromTime t"
    using MonthFromTime_range[of t] by simp_all
  then show ?thesis
    by (simp add: MakeDay_def DateFromTime_def DayWithinYear_def Let_def)
qed

lemma MakeDate_Day: "MakeDate (Day t + k) (TimeWithinDay t) = t + k * msPerDay"
  by (simp add: MakeDate_def Day_def TimeWithinDay_def algebra_simps)

lemma setDate_plus_days:
  "setDate tza (Some now) (numAdd (getDate tza (Some now)) (Some k)) = TimeClip (now + k * msPerDay)"
  by (simp add: setDate_def getDate_def numAdd_def Let_def MakeDay_of_fields MakeDate_Day
        UTC_def LocalTime_def)

subsection \<open>What the loop, a block and all blocks append\<close>

lemma addOccurrence_Inr:
  assumes "addOccurrence now tza b ttl loc dur occStart idx evs = Inr evs'"
  shows "evs' = evs \<or> (\<exists>t. occStart = Some t \<and> evs' = evs @ [eventAt tza b ttl loc dur t idx])"
  using assms
  by (auto simp: addOccurrence_def eventAt_def Let_def getTime_def split: if_splits option.splits)

lemma loopPost_nil: "loopPost tza b ttl loc dur until lim it evs (Inr evs)"
  unfolding loopPost_def by (auto intro: exI[of _ "[]"])

lemma loopPost_one:
  "numLe (Some t) until \<Longrightarrow> numLe (Some t) lim \<Longrightarrow>
   loopPost tza b ttl loc dur until lim it evs (Inr (evs @ [eventAt tza b ttl loc dur t it]))"
  unfolding loopPost_def by (auto intro!: exI[of _ "[(t, it)]"])

lemma loopPost_step:
  assumes "loopPost tza b ttl loc dur until lim (Suc it) evs1 r"
    and "evs1 = evs \<or> evs1 = evs @ [eventAt tza b ttl loc dur t it]"
    and "numLe (Some t) until" "numLe (Some t) lim" "it < 500"
  shows "loopPost tza b ttl loc dur until lim it evs r"
proof (cases r)
  case (Inl e)
  then show ?thesis by (simp add: loopPost_def)
next
  case (Inr evs')
  with assms(1) obtain occ where occ:
    "evs' = evs1 @ map (\<lambda>(t, i). eventAt tza b ttl loc dur t i) occ"
    "sorted_wrt (<) (map snd occ)"
    "list_all (\<lambda>(t, i). Suc it \<le> i \<and> i \<le> max (Suc it) 500 \<and>
                              numLe (Some t) until \<and> numLe (Some t) lim) occ"
    by (auto simp: loopPost_def)
  have weak: "list_all (\<lambda>(t, i). it \<le> i \<and> i \<le> max it 500 \<and>
                              numLe (Some t) until \<and> numLe (Some t) lim) occ"
    using occ(3) assms(5) by (auto simp: list_all_iff)
  from assms(2) show ?thesis
  proof
    assume "evs1 = evs"
    with occ weak Inr show ?thesis unfolding loopPost_def by auto
  next
    assume e: "evs1 = evs @ [eventAt tza b ttl loc dur t it]"
    have "evs' = evs @ map (\<lambda>(t, i). eventAt tza b ttl loc dur t i) ((t, it) # occ)"
      using occ(1) e by simp
    moreover have "sorted_wrt (<) (map snd ((t, it) # occ))"
      using occ(2,3) by (auto simp: list_all_iff)
    moreover have "list_all (\<lambda>(t, i). it \<le> i \<and> i \<le> max it 500 \<and>
                              numLe (Some t) until \<and> numLe (Some t) lim) ((t, it) # occ)"
      using weak assms(3,4) by simp
    ultimately show ?thesis using Inr unfolding loopPost_def by (auto simp del: map_eq_conv list.map intro!: exI[of _ "(t, it) # occ"])
  qed
qed

lemma expandLoop_spec:
  "\<exists>r. expandLoop now tza b ttl loc dur freq cnt until interval lim cur it evs = Some r \<and>
       loopPost tza b ttl loc dur until lim it evs r"
proof (induction "500 - it" arbitrary: it cur evs rule: less_induct)
  case less
  show ?case
  proof (cases "belowCount it cnt \<and> numLe cur until \<and> numLe cur lim")
    case False
    then have "expandLoop now tza b ttl loc dur freq cnt until interval lim cur it evs = Some (Inr evs)"
      by (subst expandLoop.simps) auto
    then show ?thesis by (simp add: loopPost_nil)
  next
    case guard: True
    then obtain t where cur: "cur = Some t" by (cases cur) (auto simp: numLe_def)
    show ?thesis
    proof (cases "addOccurrence now tza b ttl loc dur (dateOfNumber (getTime cur)) it evs")
      case (Inl e)
      with guard have "expandLoop now tza b ttl loc dur freq cnt until interval lim cur it evs = Some (Inl e)"
        by (subst expandLoop.simps) simp
      then show ?thesis by (simp add: loopPost_def)
    next
      case (Inr evs1)
      from addOccurrence_Inr[OF Inr] cur
      have evs1: "evs1 = evs \<or> evs1 = evs @ [eventAt tza b ttl loc dur t it]"
        by (auto simp: dateOfNumber_def getTime_def TimeClip_def split: if_splits)
      have one: "loopPost tza b ttl loc dur until lim it evs (Inr evs1)"
        using evs1 guard cur by (auto simp: loopPost_nil loopPost_one)
      show ?thesis
      proof (cases "advance tza freq interval cur")
        case None
        with guard Inr have "expandLoop now tza b ttl loc dur freq cnt until interval lim cur it evs = Some (Inr evs1)"
          by (subst expandLoop.simps) simp
        with one show ?thesis by simp
      next
        case (Some nxt)
        show ?thesis
        proof (cases "500 < it + 1")
          case True
          with guard Inr Some have "expandLoop now tza b ttl loc dur freq cnt until interval lim cur it evs = Some (Inr evs1)"
            by (subst expandLoop.simps) simp
          with one show ?thesis by simp
        next
          case False
          with guard Inr Some have eq: "expandLoop now tza b ttl loc dur freq cnt until interval lim cur it evs =
             expandLoop now tza b ttl loc dur freq cnt until interval lim nxt (it + 1) evs1"
            by (subst expandLoop.simps) simp
          from False have "500 - (it + 1) < 500 - it" by simp
          from less[OF this, of nxt evs1] obtain r where
            r: "expandLoop now tza b ttl loc dur freq cnt until interval lim nxt (it + 1) evs1 = Some r"
               "loopPost tza b ttl loc dur until lim (Suc it) evs1 r" by auto
          have "loopPost tza b ttl loc dur until lim it evs r"
            using loopPost_step[OF r(2) evs1] guard cur False by simp
          with eq r(1) show ?thesis by simp
        qed
      qed
    qed
  qed
qed


lemma generatedFrom_key:
  assumes "generatedFrom now tza lim blocks b0 e"
  shows "b0 \<le> fst (idKey (id_str e)) \<and> fst (idKey (id_str e)) < b0 + length blocks"
  using assms by (auto simp: generatedFrom_def idKey_eventAt)

lemma generatedFrom_head:
  "generatedFrom now tza lim [block] b0 e \<Longrightarrow> generatedFrom now tza lim (block # rest) b0 e"
  unfolding generatedFrom_def by fastforce

lemma generatedFrom_tail:
  assumes "generatedFrom now tza lim rest (Suc b0) e"
  shows "generatedFrom now tza lim (block # rest) b0 e"
proof -
  from assms obtain b ttl loc dur t i where g:
    "e = eventAt tza b ttl loc dur t i" "Suc b0 \<le> b" "b < Suc b0 + length rest" "i \<le> 500"
    "rruleOf (rest ! (b - Suc b0)) = [] \<or>
       (numLe (Some t) lim \<and> numLe (Some t) (untilOf now tza lim (rest ! (b - Suc b0))))"
    unfolding generatedFrom_def by blast
  from g(2) have "(block # rest) ! (b - b0) = rest ! (b - Suc b0)"
    by (simp add: nth_Cons')
  with g show ?thesis unfolding generatedFrom_def
    by (intro exI[of _ b] exI[of _ ttl] exI[of _ loc] exI[of _ dur] exI[of _ t] exI[of _ i]) auto
qed

lemma forEachPost_nil: "forEachPost now tza lim blocks b0 evs (Inr evs)"
  unfolding forEachPost_def by (auto intro: exI[of _ "[]"])

lemma forEachPost_single:
  assumes "rruleOf block = []"
  shows "forEachPost now tza lim [block] b evs (Inr (evs @ [eventAt tza b ttl loc dur t 0]))"
proof -
  have "generatedFrom now tza lim [block] b (eventAt tza b ttl loc dur t 0)"
    unfolding generatedFrom_def using assms
    by (intro exI[of _ b] exI[of _ ttl] exI[of _ loc] exI[of _ dur] exI[of _ t] exI[of _ 0]) simp
  then show ?thesis unfolding forEachPost_def by simp
qed

lemma forEachPost_loop:
  assumes "loopPost tza b ttl loc dur (untilOf now tza lim block) lim 0 evs r"
  shows "forEachPost now tza lim [block] b evs r"
proof (cases r)
  case (Inl e)
  then show ?thesis by (simp add: forEachPost_def)
next
  case (Inr evs')
  with assms obtain occ where occ:
    "evs' = evs @ map (\<lambda>(t, i). eventAt tza b ttl loc dur t i) occ"
    "sorted_wrt (<) (map snd occ)"
    "list_all (\<lambda>(t, i). 0 \<le> i \<and> i \<le> max 0 500 \<and>
        numLe (Some t) (untilOf now tza lim block) \<and> numLe (Some t) lim) occ"
    by (auto simp: loopPost_def)
  let ?new = "map (\<lambda>(t, i). eventAt tza b ttl loc dur t i) occ"
  have gen: "list_all (generatedFrom now tza lim [block] b) ?new"
  proof -
    have "generatedFrom now tza lim [block] b (eventAt tza b ttl loc dur t i)"
      if "(t, i) \<in> set occ" for t i
    proof -
      from that occ(3) have "i \<le> 500" "numLe (Some t) (untilOf now tza lim block)" "numLe (Some t) lim"
        by (auto simp: list_all_iff)
      then show ?thesis unfolding generatedFrom_def
        by (intro exI[of _ b] exI[of _ ttl] exI[of _ loc] exI[of _ dur] exI[of _ t] exI[of _ i]) simp
    qed
    then show ?thesis by (auto simp: list_all_iff)
  qed
  have "map (\<lambda>e. idKey (id_str e)) ?new = map (\<lambda>p. (b, snd p)) occ"
    by (auto simp: idKey_eventAt)
  moreover have "distinct (map snd occ)"
    using occ(2) strict_sorted_iff by blast
  ultimately have "distinct (map (\<lambda>e. idKey (id_str e)) ?new)"
    by (simp add: distinct_map inj_on_def comp_def)
  with gen occ(1) show ?thesis by (simp add: forEachPost_def Inr)
qed

lemma processBlock_spec:
  "\<exists>r. processBlock now tza lim block b evs = Some r \<and> forEachPost now tza lim [block] b evs r"
proof (cases "matchLine ''SUMMARY'' block")
  case None
  then show ?thesis by (simp add: processBlock_def forEachPost_nil)
next
  case (Some summary)
  show ?thesis
  proof (cases "matchDateProperty ''DTSTART'' block")
    case None
    with Some show ?thesis by (simp add: processBlock_def forEachPost_nil)
  next
    case dt: (Some dtStart)
    define ttl where "ttl = trim summary"
    define loc where "loc = (case matchLine ''LOCATION'' block of Some l \<Rightarrow> trim l | None \<Rightarrow> ''No location'')"
    define startBase where "startBase = parseIcsDate now tza dtStart"
    define dur where "dur = (case matchDateProperty ''DTEND'' block of
                              None \<Rightarrow> Some (60 * 60 * 1000)
                            | Some dtEnd \<Rightarrow>
                                numSub (getTime (parseIcsDate now tza dtEnd))
                                       (getTime (parseIcsDate now tza dtStart)))"
    show ?thesis
    proof (cases "rruleOf block = []")
      case True
      then have eq: "processBlock now tza lim block b evs =
                 Some (addOccurrence now tza b ttl loc dur startBase 0 evs)"
        using Some dt
        by (simp add: processBlock_def Let_def rruleOf_def ttl_def loc_def startBase_def dur_def)
      show ?thesis
      proof (cases "addOccurrence now tza b ttl loc dur startBase 0 evs")
        case (Inl e)
        with eq show ?thesis by (simp add: forEachPost_def)
      next
        case (Inr evs1)
        from addOccurrence_Inr[OF Inr] True
        have "forEachPost now tza lim [block] b evs (Inr evs1)"
          by (auto simp: forEachPost_nil forEachPost_single)
        with eq Inr show ?thesis by simp
      qed
    next
      case False
      define freq where "freq = (case matchRun ''FREQ='' (\<lambda>c. c \<noteq> CHR '';'') (rruleOf block) of
                                   Some f \<Rightarrow> toUpperCase f | None \<Rightarrow> ''WEEKLY'')"
      define cnt where "cnt = (case matchRun ''COUNT='' isDigit (rruleOf block) of
                                 Some c \<Rightarrow> Parsed (parseInt c) | None \<Rightarrow> Infinity)"
      define interval where "interval = (case matchRun ''INTERVAL='' isDigit (rruleOf block) of
                                 Some i \<Rightarrow> parseInt i | None \<Rightarrow> Some 1)"
      from False have eq: "processBlock now tza lim block b evs =
          expandLoop now tza b ttl loc dur freq cnt (untilOf now tza lim block) interval lim
            (dateOfNumber (getTime startBase)) 0 evs"
        using Some dt
        by (simp add: processBlock_def Let_def rruleOf_def untilOf_def ttl_def loc_def
              startBase_def dur_def freq_def cnt_def interval_def)
      from expandLoop_spec[of now tza b ttl loc dur freq cnt "untilOf now tza lim block" interval lim
             "dateOfNumber (getTime startBase)" 0 evs]
      obtain r where "processBlock now tza lim block b evs = Some r"
        "loopPost tza b ttl loc dur (untilOf now tza lim block) lim 0 evs r"
        using eq by auto
      then show ?thesis using forEachPost_loop by blast
    qed
  qed
qed

lemma forEachPost_cons:
  assumes h: "forEachPost now tza lim [block] b0 evs (Inr evs1)"
    and t: "forEachPost now tza lim rest (Suc b0) evs1 r"
  shows "forEachPost now tza lim (block # rest) b0 evs r"
proof (cases r)
  case (Inl e)
  then show ?thesis by (simp add: forEachPost_def)
next
  case (Inr evs')
  from h obtain new1 where n1: "evs1 = evs @ new1"
    "list_all (generatedFrom now tza lim [block] b0) new1"
    "distinct (map (\<lambda>e. idKey (id_str e)) new1)"
    by (auto simp: forEachPost_def)
  from t Inr obtain new2 where n2: "evs' = evs1 @ new2"
    "list_all (generatedFrom now tza lim rest (Suc b0)) new2"
    "distinct (map (\<lambda>e. idKey (id_str e)) new2)"
    by (auto simp: forEachPost_def)
  have g1: "list_all (generatedFrom now tza lim (block # rest) b0) new1"
    using n1(2) by (auto simp: list_all_iff intro: generatedFrom_head)
  have g2: "list_all (generatedFrom now tza lim (block # rest) b0) new2"
    using n2(2) by (auto simp: list_all_iff intro: generatedFrom_tail)
  have k1: "fst (idKey (id_str e)) = b0" if "e \<in> set new1" for e
    using that n1(2) generatedFrom_key[of now tza lim "[block]" b0 e] by (auto simp: list_all_iff)
  have k2: "Suc b0 \<le> fst (idKey (id_str e))" if "e \<in> set new2" for e
    using that n2(2) generatedFrom_key[of now tza lim rest "Suc b0" e] by (auto simp: list_all_iff)
  have "set (map (\<lambda>e. idKey (id_str e)) new1) \<inter> set (map (\<lambda>e. idKey (id_str e)) new2) = {}"
  proof -
    have "idKey (id_str e1) \<noteq> idKey (id_str e2)" if "e1 \<in> set new1" "e2 \<in> set new2" for e1 e2
      using k1[OF that(1)] k2[OF that(2)] by auto
    then have "k \<in> (\<lambda>e. idKey (id_str e)) ` set new1 \<Longrightarrow>
               k \<in> (\<lambda>e. idKey (id_str e)) ` set new2 \<Longrightarrow> False" for k
      by (elim imageE) blast
    then show ?thesis by (simp only: set_map) blast
  qed
  with n1(3) n2(3) have "distinct (map (\<lambda>e. idKey (id_str e)) (new1 @ new2))"
    by simp
  moreover have "evs' = evs @ (new1 @ new2)" using n1(1) n2(1) by simp
  moreover have "list_all (generatedFrom now tza lim (block # rest) b0) (new1 @ new2)"
    using g1 g2 by simp
  ultimately show ?thesis by (simp add: forEachPost_def Inr)
qed

lemma forEachBlock_spec:
  "\<exists>r. forEachBlock now tza lim blocks b0 evs = Some r \<and> forEachPost now tza lim blocks b0 evs r"
proof (induction blocks arbitrary: b0 evs)
  case Nil
  show ?case by (simp add: forEachPost_nil)
next
  case (Cons block rest)
  from processBlock_spec[of now tza lim block b0 evs] obtain r1 where
    r1: "processBlock now tza lim block b0 evs = Some r1" "forEachPost now tza lim [block] b0 evs r1"
    by blast
  show ?case
  proof (cases r1)
    case (Inl e)
    with r1 show ?thesis by (simp add: forEachPost_def)
  next
    case (Inr evs1)
    from Cons[of "Suc b0" evs1] obtain r where
      r: "forEachBlock now tza lim rest (Suc b0) evs1 = Some r"
         "forEachPost now tza lim rest (Suc b0) evs1 r" by blast
    from r1 Inr r(1) have "forEachBlock now tza lim (block # rest) b0 evs = Some r" by simp
    moreover have "forEachPost now tza lim (block # rest) b0 evs r"
      using forEachPost_cons r1(2) r(2) Inr by blast
    ultimately show ?thesis by blast
  qed
qed

text \<open>The loop of a block appends at most 501 events.\<close>

lemma expandLoop_at_most_501:
  assumes "expandLoop now tza b ttl loc dur freq cnt until interval lim cur 0 evs = Some (Inr evs')"
  shows "length evs' \<le> length evs + 501"
proof -
  from expandLoop_spec[of now tza b ttl loc dur freq cnt until interval lim cur 0 evs] assms
  have "loopPost tza b ttl loc dur until lim 0 evs (Inr evs')" by auto
  then obtain occ where occ:
    "evs' = evs @ map (\<lambda>(t, i). eventAt tza b ttl loc dur t i) occ"
    "sorted_wrt (<) (map snd occ)"
    "list_all (\<lambda>(t, i). 0 \<le> i \<and> i \<le> max 0 500 \<and> numLe (Some t) until \<and> numLe (Some t) lim) occ"
    by (auto simp: loopPost_def)
  from occ(2) have "distinct (map snd occ)" using strict_sorted_iff by blast
  then have "length occ = card (set (map snd occ))"
    by (metis distinct_card length_map)
  also have "set (map snd occ) \<subseteq> {..500}"
    using occ(3) by (auto simp: list_all_iff)
  then have "card (set (map snd occ)) \<le> card {..500::nat}"
    by (intro card_mono) simp_all
  finally have "length occ \<le> 501" by simp
  with occ(1) show ?thesis by simp
qed

subsection \<open>Running the parser on the sample feeds\<close>

lemma addOccurrence_keep:
  assumes "\<not> numLt (dateOfNumber (numAdd (Some t) dur)) (Some now)"
  shows "addOccurrence now tza b ttl loc dur (Some t) idx evs =
           Inr (evs @ [eventAt tza b ttl loc dur t idx])"
  using assms by (simp add: addOccurrence_def eventAt_def getTime_def Let_def)

lemma expandLoop_exit:
  assumes "\<not> (belowCount it cnt \<and> numLe cur until \<and> numLe cur lim)"
  shows "expandLoop now tza b ttl loc dur freq cnt until interval lim cur it evs = Some (Inr evs)"
  using assms by (subst expandLoop.simps) auto

lemma expandLoop_step:
  assumes "belowCount it cnt" "numLe (Some t) until" "numLe (Some t) lim"
    and "dateOfNumber (getTime (Some t)) = Some t"
    and "\<not> numLt (dateOfNumber (numAdd (Some t) dur)) (Some now)"
    and "advance tza freq interval (Some t) = Some nxt"
    and "it < 500"
  shows "expandLoop now tza b ttl loc dur freq cnt until interval lim (Some t) it evs =
         expandLoop now tza b ttl loc dur freq cnt until interval lim nxt (Suc it)
           (evs @ [eventAt tza b ttl loc dur t it])"
  using assms by (subst expandLoop.simps) (simp add: addOccurrence_keep)

lemma expandLoop_last:
  assumes "belowCount it cnt" "numLe (Some t) until" "numLe (Some t) lim"
    and "dateOfNumber (getTime (Some t)) = Some t"
    and "\<not> numLt (dateOfNumber (numAdd (Some t) dur)) (Some now)"
    and "advance tza freq interval (Some t) = Some nxt"
    and "500 \<le> it"
  shows "expandLoop now tza b ttl loc dur freq cnt until interval lim (Some t) it evs =
         Some (Inr (evs @ [eventAt tza b ttl loc dur t it]))"
  using assms by (subst expandLoop.simps) (simp add: addOccurrence_keep)

lemma expandLoop_stuck:
  assumes adv: "advance tza freq interval (Some t) = Some (Some t)"
    and g: "numLe (Some t) until" "numLe (Some t) lim"
    and clip: "dateOfNumber (getTime (Some t)) = Some t"
    and keep: "\<not> numLt (dateOfNumber (numAdd (Some t) dur)) (Some now)"
    and it: "it \<le> 500"
  shows "expandLoop now tza b ttl loc dur freq Infinity until interval lim (Some t) it evs =
         Some (Inr (evs @ map (eventAt tza b ttl loc dur t) [it..<501]))"
  using it
proof (induction "500 - it" arbitrary: it evs)
  case 0
  then have "it = 500" by simp
  then have "[it..<501] = [it]" by (simp add: upt_rec)
  moreover have "belowCount it Infinity" by (simp add: belowCount_def)
  ultimately show ?case
    using expandLoop_last[OF _ g clip keep adv, of it Infinity] \<open>it = 500\<close> by simp
next
  case (Suc k)
  then have lt: "it < 500" by simp
  have bc: "belowCount it Infinity" by (simp add: belowCount_def)
  have "[it..<501] = it # [Suc it..<501]" using lt by (simp add: upt_rec)
  moreover have "500 - Suc it = k" "Suc it \<le> 500" using Suc by simp_all
  ultimately show ?case
    using expandLoop_step[OF bc g clip keep adv lt, of b ttl loc evs]
          Suc(1)[of "Suc it" "evs @ [eventAt tza b ttl loc dur t it]"]
    by simp
qed

lemma processBlock_single:
  assumes "matchLine ''SUMMARY'' block = Some summary"
    and "matchDateProperty ''DTSTART'' block = Some dtStart"
    and "rruleOf block = []"
  shows "processBlock now tza lim block b evs =
     Some (addOccurrence now tza b (trim summary)
       (case matchLine ''LOCATION'' block of Some l \<Rightarrow> trim l | None \<Rightarrow> ''No location'')
       (case matchDateProperty ''DTEND'' block of
          None \<Rightarrow> Some (60 * 60 * 1000)
        | Some dtEnd \<Rightarrow> numSub (getTime (parseIcsDate now tza dtEnd))
                                (getTime (parseIcsDate now tza dtStart)))
       (parseIcsDate now tza dtStart) 0 evs)"
  using assms by (simp add: processBlock_def Let_def rruleOf_def)

lemma processBlock_recurring:
  assumes "matchLine ''SUMMARY'' block = Some summary"
    and "matchDateProperty ''DTSTART'' block = Some dtStart"
    and "rruleOf block \<noteq> []"
  shows "processBlock now tza lim block b evs =
     expandLoop now tza b (trim summary)
       (case matchLine ''LOCATION'' block of Some l \<Rightarrow> trim l | None \<Rightarrow> ''No location'')
       (case matchDateProperty ''DTEND'' block of
          None \<Rightarrow> Some (60 * 60 * 1000)
        | Some dtEnd \<Rightarrow> numSub (getTime (parseIcsDate now tza dtEnd))
                                (getTime (parseIcsDate now tza dtStart)))
       (case matchRun ''FREQ='' (\<lambda>c. c \<noteq> CHR '';'') (rruleOf block) of
          Some f \<Rightarrow> toUpperCase f | None \<Rightarrow> ''WEEKLY'')
       (case matchRun ''COUNT='' isDigit (rruleOf block) of
          Some c \<Rightarrow> Parsed (parseInt c) | None \<Rightarrow> Infinity)
       (untilOf now tza lim block)
       (case matchRun ''INTERVAL='' isDigit (rruleOf block) of
          Some i \<Rightarrow> parseInt i | None \<Rightarrow> Some 1)
       lim (dateOfNumber (getTime (parseIcsDate now tza dtStart))) 0 evs"
  using assms by (simp add: processBlock_def Let_def rruleOf_def untilOf_def)

lemma expansionLimitOf_same: "expansionLimitOf now now tza = TimeClip (now + 60 * msPerDay)"
  by (simp add: expansionLimitOf_def setDate_plus_days)

lemma parseICS_single_block:
  assumes "veventBlocks icsData = [block]"
    and "processBlock now tza (expansionLimitOf now now2 tza) block 0 [] = Some (Inr evs)"
  shows "parseICS localeCompare now now2 tza icsData =
           Some (Inr (sortBy (compareEvents localeCompare) evs))"
  using assms by (simp add: parseICS_def expansionLimitOf_def)

lemma stuck_eval:
  "processBlock newYear2026 0 (TimeClip (newYear2026 + 60 * msPerDay)) stuckBlock 0 [] =
     Some (Inr (map (eventAt 0 0 ''Daily'' ''No location'' (Some 3600000) 1767603600000) [0..<501]))"
proof -
  have m: "matchLine ''SUMMARY'' stuckBlock = Some ''Daily''"
    "matchDateProperty ''DTSTART'' stuckBlock = Some ''20260105T090000''"
    "rruleOf stuckBlock = ''FREQ=DAILY;INTERVAL=0''"
    by code_simp+
  have a: "trim ''Daily'' = ''Daily''"
    "(case matchLine ''LOCATION'' stuckBlock of Some l \<Rightarrow> trim l | None \<Rightarrow> ''No location'') = ''No location''"
    "(case matchDateProperty ''DTEND'' stuckBlock of
          None \<Rightarrow> Some (60 * 60 * 1000)
        | Some dtEnd \<Rightarrow> numSub (getTime (parseIcsDate newYear2026 0 dtEnd))
                                (getTime (parseIcsDate newYear2026 0 ''20260105T090000''))) = Some 3600000"
    "(case matchRun ''FREQ='' (\<lambda>c. c \<noteq> CHR '';'') ''FREQ=DAILY;INTERVAL=0'' of
          Some f \<Rightarrow> toUpperCase f | None \<Rightarrow> ''WEEKLY'') = ''DAILY''"
    "(case matchRun ''COUNT='' isDigit ''FREQ=DAILY;INTERVAL=0'' of
          Some c \<Rightarrow> Parsed (parseInt c) | None \<Rightarrow> Infinity) = Infinity"
    "(case matchRun ''INTERVAL='' isDigit ''FREQ=DAILY;INTERVAL=0'' of
          Some i \<Rightarrow> parseInt i | None \<Rightarrow> Some 1) = Some 0"
    "dateOfNumber (getTime (parseIcsDate newYear2026 0 ''20260105T090000'')) = Some 1767603600000"
    by code_simp+
  have u: "TimeClip (newYear2026 + 60 * msPerDay) = Some 1772409600000"
    "untilOf newYear2026 0 (Some 1772409600000) stuckBlock = Some 1772409600000"
    by code_simp+
  have s: "advance 0 ''DAILY'' (Some 0) (Some 1767603600000) = Some (Some 1767603600000)"
    "numLe (Some 1767603600000) (Some 1772409600000)"
    "dateOfNumber (getTime (Some 1767603600000)) = Some 1767603600000"
    "\<not> numLt (dateOfNumber (numAdd (Some 1767603600000) (Some 3600000))) (Some newYear2026)"
    by code_simp+
  have "rruleOf stuckBlock \<noteq> []" by (simp add: m)
  from processBlock_recurring[OF m(1,2) this, of newYear2026 0 "Some 1772409600000" 0 "[]"]
  have "processBlock newYear2026 0 (Some 1772409600000) stuckBlock 0 [] =
          expandLoop newYear2026 0 0 ''Daily'' ''No location'' (Some 3600000) ''DAILY'' Infinity
            (Some 1772409600000) (Some 0) (Some 1772409600000) (Some 1767603600000) 0 []"
    by (simp only: m a u)
  then show ?thesis
    by (simp add: u(1) expandLoop_stuck[OF s(1) s(2) s(2) s(3) s(4)])
qed

lemma fourWeekly_eval:
  "processBlock newYear2026 0 (TimeClip (newYear2026 + 60 * msPerDay)) fourWeeklyBlock 0 [] =
     Some (Inr [eventAt 0 0 ''Review'' ''No location'' (Some 3600000) 1767603600000 0,
                eventAt 0 0 ''Review'' ''No location'' (Some 3600000) 1770022800000 1])"
proof -
  have m: "matchLine ''SUMMARY'' fourWeeklyBlock = Some ''Review''"
    "matchDateProperty ''DTSTART'' fourWeeklyBlock = Some ''20260105T090000''"
    "rruleOf fourWeeklyBlock = ''FREQ=WEEKLY;INTERVAL=4;UNTIL=20270101''"
    by code_simp+
  have a: "trim ''Review'' = ''Review''"
    "(case matchLine ''LOCATION'' fourWeeklyBlock of Some l \<Rightarrow> trim l | None \<Rightarrow> ''No location'') = ''No location''"
    "(case matchDateProperty ''DTEND'' fourWeeklyBlock of
          None \<Rightarrow> Some (60 * 60 * 1000)
        | Some dtEnd \<Rightarrow> numSub (getTime (parseIcsDate newYear2026 0 dtEnd))
                                (getTime (parseIcsDate newYear2026 0 ''20260105T090000''))) = Some 3600000"
    "(case matchRun ''FREQ='' (\<lambda>c. c \<noteq> CHR '';'') ''FREQ=WEEKLY;INTERVAL=4;UNTIL=20270101'' of
          Some f \<Rightarrow> toUpperCase f | None \<Rightarrow> ''WEEKLY'') = ''WEEKLY''"
    "(case matchRun ''COUNT='' isDigit ''FREQ=WEEKLY;INTERVAL=4;UNTIL=20270101'' of
          Some c \<Rightarrow> Parsed (parseInt c) | None \<Rightarrow> Infinity) = Infinity"
    "(case matchRun ''INTERVAL='' isDigit ''FREQ=WEEKLY;INTERVAL=4;UNTIL=20270101'' of
          Some i \<Rightarrow> parseInt i | None \<Rightarrow> Some 1) = Some 4"
    "dateOfNumber (getTime (parseIcsDate newYear2026 0 ''20260105T090000'')) = Some 1767603600000"
    by code_simp+
  have u: "TimeClip (newYear2026 + 60 * msPerDay) = Some 1772409600000"
    "untilOf newYear2026 0 (Some 1772409600000) fourWeeklyBlock = Some 1798761600000"
    by code_simp+
  have bc: "belowCount k Infinity" for k by (simp add: belowCount_def)
  have s0: "numLe (Some 1767603600000) (Some 1798761600000)"
    "numLe (Some 1767603600000) (Some 1772409600000)"
    "dateOfNumber (getTime (Some 1767603600000)) = Some 1767603600000"
    "\<not> numLt (dateOfNumber (numAdd (Some 1767603600000) (Some 3600000))) (Some newYear2026)"
    "advance 0 ''WEEKLY'' (Some 4) (Some 1767603600000) = Some (Some 1770022800000)"
    by code_simp+
  have s1: "numLe (Some 1770022800000) (Some 1798761600000)"
    "numLe (Some 1770022800000) (Some 1772409600000)"
    "dateOfNumber (getTime (Some 1770022800000)) = Some 1770022800000"
    "\<not> numLt (dateOfNumber (numAdd (Some 1770022800000) (Some 3600000))) (Some newYear2026)"
    "advance 0 ''WEEKLY'' (Some 4) (Some 1770022800000) = Some (Some 1772442000000)"
    by code_simp+
  have s2: "\<not> numLe (Some 1772442000000) (Some 1772409600000)"
    by code_simp
  have "rruleOf fourWeeklyBlock \<noteq> []" by (simp add: m)
  from processBlock_recurring[OF m(1,2) this, of newYear2026 0 "Some 1772409600000" 0 "[]"]
  have "processBlock newYear2026 0 (Some 1772409600000) fourWeeklyBlock 0 [] =
          expandLoop newYear2026 0 0 ''Review'' ''No location'' (Some 3600000) ''WEEKLY'' Infinity
            (Some 1798761600000) (Some 4) (Some 1772409600000) (Some 1767603600000) 0 []"
    by (simp only: m a u)
  also have "\<dots> = expandLoop newYear2026 0 0 ''Review'' ''No location'' (Some 3600000) ''WEEKLY'' Infinity
            (Some 1798761600000) (Some 4) (Some 1772409600000) (Some 1770022800000) 1
            [eventAt 0 0 ''Review'' ''No location'' (Some 3600000) 1767603600000 0]"
    using expandLoop_step[OF bc s0, of 0 0 "''Review''" "''No location''" "[]"] by simp
  also have "\<dots> = expandLoop newYear2026 0 0 ''Review'' ''No location'' (Some 3600000) ''WEEKLY'' Infinity
            (Some 1798761600000) (Some 4) (Some 1772409600000) (Some 1772442000000) 2
            [eventAt 0 0 ''Review'' ''No location'' (Some 3600000) 1767603600000 0,
             eventAt 0 0 ''Review'' ''No location'' (Some 3600000) 1770022800000 1]"
    using expandLoop_step[OF bc s1, of 1 0 "''Review''" "''No location''"
            "[eventAt 0 0 ''Review'' ''No location'' (Some 3600000) 1767603600000 0]"]
    by (simp add: numeral_2_eq_2)
  also have "\<dots> = Some (Inr [eventAt 0 0 ''Review'' ''No location'' (Some 3600000) 1767603600000 0,
             eventAt 0 0 ''Review'' ''No location'' (Some 3600000) 1770022800000 1])"
    using s2 by (intro expandLoop_exit) simp
  finally show ?thesis by (simp add: u(1))
qed

lemma fourWeekly_parse:
  "parseICS codeUnitCompare newYear2026 newYear2026 0 fourWeeklyFeed =
     Some (Inr [eventAt 0 0 ''Review'' ''No location'' (Some 3600000) 1767603600000 0,
                eventAt 0 0 ''Review'' ''No location'' (Some 3600000) 1770022800000 1])"
proof -
  have b: "veventBlocks fourWeeklyFeed = [fourWeeklyBlock]" by code_simp
  have "compareEvents codeUnitCompare
          (eventAt 0 0 ''Review'' ''No location'' (Some 3600000) 1767603600000 0)
          (eventAt 0 0 ''Review'' ''No location'' (Some 3600000) 1770022800000 1) \<le> 0"
    by code_simp
  then show ?thesis
    using parseICS_single_block[OF b, of newYear2026 0 newYear2026 _ codeUnitCompare]
          fourWeekly_eval
    by (simp add: sortBy_def expansionLimitOf_same)
qed

lemma standup_eval:
  "processBlock newYear2026 0 lim standupBlock 0 [] =
     Some (Inr [sampleEvent ''ics-0-0-4070944800000'' ''2099-01-01'' ''10:00'' ''11:00''])"
  "processBlock newYear2026 (11 * msPerHour) lim standupBlock 0 [] =
     Some (Inr [sampleEvent ''ics-0-0-4070905200000'' ''2098-12-31'' ''10:00'' ''11:00''])"
proof -
  have m: "matchLine ''SUMMARY'' standupBlock = Some ''Standup''"
    "matchDateProperty ''DTSTART'' standupBlock = Some ''20990101T100000''"
    "rruleOf standupBlock = []"
    by code_simp+
  have a: "trim ''Standup'' = ''Standup''"
    "matchLine ''LOCATION'' standupBlock = None"
    "matchDateProperty ''DTEND'' standupBlock = Some ''20990101T110000''"
    by code_simp+
  have d0: "parseIcsDate newYear2026 0 ''20990101T100000'' = Some 4070944800000"
    "parseIcsDate newYear2026 0 ''20990101T110000'' = Some 4070948400000"
    by code_simp+
  have k0: "\<not> numLt (dateOfNumber (numAdd (Some 4070944800000) (Some 3600000))) (Some newYear2026)"
    by code_simp
  have e0: "eventAt 0 0 ''Standup'' ''No location'' (Some 3600000) 4070944800000 0 =
       sampleEvent ''ics-0-0-4070944800000'' ''2099-01-01'' ''10:00'' ''11:00''"
    by (rule CalendarEvent.equality; code_simp)
  have d11: "parseIcsDate newYear2026 (11 * msPerHour) ''20990101T100000'' = Some 4070905200000"
    "parseIcsDate newYear2026 (11 * msPerHour) ''20990101T110000'' = Some 4070908800000"
    by code_simp+
  have k11: "\<not> numLt (dateOfNumber (numAdd (Some 4070905200000) (Some 3600000))) (Some newYear2026)"
    by code_simp
  have e11: "eventAt (11 * msPerHour) 0 ''Standup'' ''No location'' (Some 3600000) 4070905200000 0 =
       sampleEvent ''ics-0-0-4070905200000'' ''2098-12-31'' ''10:00'' ''11:00''"
    by (rule CalendarEvent.equality; code_simp)
  show "processBlock newYear2026 0 lim standupBlock 0 [] =
     Some (Inr [sampleEvent ''ics-0-0-4070944800000'' ''2099-01-01'' ''10:00'' ''11:00''])"
    using processBlock_single[OF m, of newYear2026 0 lim 0 "[]"]
    by (simp add: a d0 numSub_def getTime_def addOccurrence_keep[OF k0] e0)
  show "processBlock newYear2026 (11 * msPerHour) lim standupBlock 0 [] =
     Some (Inr [sampleEvent ''ics-0-0-4070905200000'' ''2098-12-31'' ''10:00'' ''11:00''])"
    using processBlock_single[OF m, of newYear2026 "11 * msPerHour" lim 0 "[]"]
    by (simp add: a d11 numSub_def getTime_def addOccurrence_keep[OF k11] e11)
qed

lemma parseICS_Inr:
  assumes "parseICS localeCompare now now2 tza icsData = Some (Inr evs)"
  shows "\<exists>evs0. evs = sortBy (compareEvents localeCompare) evs0 \<and>
           list_all (generatedFrom now tza (expansionLimitOf now now2 tza) (veventBlocks icsData) 0) evs0 \<and>
           distinct (map (\<lambda>e. idKey (id_str e)) evs0)"
proof -
  let ?lim = "expansionLimitOf now now2 tza"
  from forEachBlock_spec[of now tza ?lim "veventBlocks icsData" 0 "[]"] obtain r where
    r: "forEachBlock now tza ?lim (veventBlocks icsData) 0 [] = Some r"
       "forEachPost now tza ?lim (veventBlocks icsData) 0 [] r" by blast
  with assms obtain evs0 where e: "r = Inr evs0" "evs = sortBy (compareEvents localeCompare) evs0"
    by (cases r) (auto simp: parseICS_def expansionLimitOf_def)
  with r(2) show ?thesis by (auto simp: forEachPost_def)
qed

subsection \<open>The expansion limit\<close>

text \<open>Every occurrence of a recurring block starts within the limit that \<^verbatim>\<open>parseICS\<close>
  computed and within the block's \<^verbatim>\<open>until\<close>.\<close>

lemma parseICS_within_expansionLimit:
  assumes "parseICS localeCompare now now2 tza icsData = Some (Inr evs)"
    and "e \<in> set evs"
  shows "\<exists>b ttl loc dur t i.
           e = eventAt tza b ttl loc dur t i \<and> b < length (veventBlocks icsData) \<and>
           (rruleOf (veventBlocks icsData ! b) = [] \<or>
            (numLe (Some t) (expansionLimitOf now now2 tza) \<and>
             numLe (Some t) (untilOf now tza (expansionLimitOf now now2 tza) (veventBlocks icsData ! b))))"
proof -
  from parseICS_Inr[OF assms(1)] obtain evs0 where
    e0: "evs = sortBy (compareEvents localeCompare) evs0"
        "list_all (generatedFrom now tza (expansionLimitOf now now2 tza) (veventBlocks icsData) 0) evs0"
    by blast
  with assms(2) have "generatedFrom now tza (expansionLimitOf now now2 tza) (veventBlocks icsData) 0 e"
    by (simp add: set_sortBy list_all_iff)
  then obtain b ttl loc dur t i where
    "e = eventAt tza b ttl loc dur t i" "b < length (veventBlocks icsData)"
    "rruleOf (veventBlocks icsData ! b) = [] \<or>
       (numLe (Some t) (expansionLimitOf now now2 tza) \<and>
        numLe (Some t) (untilOf now tza (expansionLimitOf now now2 tza) (veventBlocks icsData ! b)))"
    unfolding generatedFrom_def by auto
  then show ?thesis by blast
qed

text \<open>When the two readings of the clock coincide, on a host with a constant offset
  from UTC, the limit is the instant 60 days after the reading.\<close>

lemma parseICS_within_60_days_of_one_reading:
  assumes "parseICS localeCompare now now tza icsData = Some (Inr evs)"
    and "e \<in> set evs"
  shows "\<exists>b ttl loc dur t i.
           e = eventAt tza b ttl loc dur t i \<and> b < length (veventBlocks icsData) \<and>
           (rruleOf (veventBlocks icsData ! b) = [] \<or> t \<le> now + 60 * msPerDay)"
proof -
  from parseICS_within_expansionLimit[OF assms] obtain b ttl loc dur t i where g:
    "e = eventAt tza b ttl loc dur t i" "b < length (veventBlocks icsData)"
    "rruleOf (veventBlocks icsData ! b) = [] \<or>
       numLe (Some t) (expansionLimitOf now now tza)"
    by blast
  have "t \<le> now + 60 * msPerDay" if "numLe (Some t) (expansionLimitOf now now tza)"
    using that by (auto simp: expansionLimitOf_same numLe_def TimeClip_def split: if_splits)
  with g show ?thesis by blast
qed

text \<open>The quarterly feed, parsed while January ends: the first reading of the clock is
  the last millisecond of 31 January, the second the first of 1 February.\<close>

lemma quarterly_eval:
  "processBlock monthEnd 0 (expansionLimitOf monthEnd (monthEnd + 1) 0) quarterlyBlock 0 [] =
     Some (Inr [eventAt 0 0 ''Quarterly'' ''No location'' (Some 3600000) 1769936400000 0,
                eventAt 0 0 ''Quarterly'' ''No location'' (Some 3600000) 1777626000000 1])"
proof -
  have m: "matchLine ''SUMMARY'' quarterlyBlock = Some ''Quarterly''"
    "matchDateProperty ''DTSTART'' quarterlyBlock = Some ''20260201T090000''"
    "rruleOf quarterlyBlock = ''FREQ=MONTHLY;INTERVAL=3''"
    by code_simp+
  have a: "trim ''Quarterly'' = ''Quarterly''"
    "(case matchLine ''LOCATION'' quarterlyBlock of Some l \<Rightarrow> trim l | None \<Rightarrow> ''No location'') = ''No location''"
    "(case matchDateProperty ''DTEND'' quarterlyBlock of
          None \<Rightarrow> Some (60 * 60 * 1000)
        | Some dtEnd \<Rightarrow> numSub (getTime (parseIcsDate monthEnd 0 dtEnd))
                                (getTime (parseIcsDate monthEnd 0 ''20260201T090000''))) = Some 3600000"
    "(case matchRun ''FREQ='' (\<lambda>c. c \<noteq> CHR '';'') ''FREQ=MONTHLY;INTERVAL=3'' of
          Some f \<Rightarrow> toUpperCase f | None \<Rightarrow> ''WEEKLY'') = ''MONTHLY''"
    "(case matchRun ''COUNT='' isDigit ''FREQ=MONTHLY;INTERVAL=3'' of
          Some c \<Rightarrow> Parsed (parseInt c) | None \<Rightarrow> Infinity) = Infinity"
    "(case matchRun ''INTERVAL='' isDigit ''FREQ=MONTHLY;INTERVAL=3'' of
          Some i \<Rightarrow> parseInt i | None \<Rightarrow> Some 1) = Some 3"
    "dateOfNumber (getTime (parseIcsDate monthEnd 0 ''20260201T090000'')) = Some 1769936400000"
    by code_simp+
  have u: "expansionLimitOf monthEnd (monthEnd + 1) 0 = Some 1777680000000"
    "untilOf monthEnd 0 (Some 1777680000000) quarterlyBlock = Some 1777680000000"
    by code_simp+
  have bc: "belowCount k Infinity" for k by (simp add: belowCount_def)
  have s0: "numLe (Some 1769936400000) (Some 1777680000000)"
    "numLe (Some 1769936400000) (Some 1777680000000)"
    "dateOfNumber (getTime (Some 1769936400000)) = Some 1769936400000"
    "\<not> numLt (dateOfNumber (numAdd (Some 1769936400000) (Some 3600000))) (Some monthEnd)"
    "advance 0 ''MONTHLY'' (Some 3) (Some 1769936400000) = Some (Some 1777626000000)"
    by code_simp+
  have s1: "numLe (Some 1777626000000) (Some 1777680000000)"
    "numLe (Some 1777626000000) (Some 1777680000000)"
    "dateOfNumber (getTime (Some 1777626000000)) = Some 1777626000000"
    "\<not> numLt (dateOfNumber (numAdd (Some 1777626000000) (Some 3600000))) (Some monthEnd)"
    "advance 0 ''MONTHLY'' (Some 3) (Some 1777626000000) = Some (Some 1785574800000)"
    by code_simp+
  have s2: "\<not> numLe (Some 1785574800000) (Some 1777680000000)"
    by code_simp
  have "rruleOf quarterlyBlock \<noteq> []" by (simp add: m)
  from processBlock_recurring[OF m(1,2) this, of monthEnd 0 "Some 1777680000000" 0 "[]"]
  have "processBlock monthEnd 0 (Some 1777680000000) quarterlyBlock 0 [] =
          expandLoop monthEnd 0 0 ''Quarterly'' ''No location'' (Some 3600000) ''MONTHLY'' Infinity
            (Some 1777680000000) (Some 3) (Some 1777680000000) (Some 1769936400000) 0 []"
    by (simp only: m a u)
  also have "\<dots> = expandLoop monthEnd 0 0 ''Quarterly'' ''No location'' (Some 3600000) ''MONTHLY'' Infinity
            (Some 1777680000000) (Some 3) (Some 1777680000000) (Some 1777626000000) 1
            [eventAt 0 0 ''Quarterly'' ''No location'' (Some 3600000) 1769936400000 0]"
    using expandLoop_step[OF bc s0, of 0 0 "''Quarterly''" "''No location''" "[]"] by simp
  also have "\<dots> = expandLoop monthEnd 0 0 ''Quarterly'' ''No location'' (Some 3600000) ''MONTHLY'' Infinity
            (Some 1777680000000) (Some 3) (Some 1777680000000) (Some 1785574800000) 2
            [eventAt 0 0 ''Quarterly'' ''No location'' (Some 3600000) 1769936400000 0,
             eventAt 0 0 ''Quarterly'' ''No location'' (Some 3600000) 1777626000000 1]"
    using expandLoop_step[OF bc s1, of 1 0 "''Quarterly''" "''No location''"
            "[eventAt 0 0 ''Quarterly'' ''No location'' (Some 3600000) 1769936400000 0]"]
    by (simp add: numeral_2_eq_2)
  also have "\<dots> = Some (Inr [eventAt 0 0 ''Quarterly'' ''No location'' (Some 3600000) 1769936400000 0,
             eventAt 0 0 ''Quarterly'' ''No location'' (Some 3600000) 1777626000000 1])"
    using s2 by (intro expandLoop_exit) simp
  finally show ?thesis by (simp add: u(1))
qed

section \<open>The feed parser: properties\<close>

text \<open>
  Claim C7.  \<^verbatim>\<open>parseICS\<close> returns on every input text, and the expansion loop of a block
  returns from every state and for every rule --- whatever the interval, the count, the
  frequency and the bounds are.
\<close>

theorem parseICS_terminates:
  "(\<exists>r. parseICS localeCompare now now2 tza icsData = Some r) \<and>
   (\<exists>r. expandLoop now tza b ttl loc dur freq cnt until interval lim cur it evs = Some r)"
proof
  let ?lim = "expansionLimitOf now now2 tza"
  from forEachBlock_spec[of now tza ?lim "veventBlocks icsData" 0 "[]"] obtain r where
    "forEachBlock now tza ?lim (veventBlocks icsData) 0 [] = Some r" by blast
  then show "\<exists>r. parseICS localeCompare now now2 tza icsData = Some r"
    by (cases r) (simp_all add: parseICS_def expansionLimitOf_def)
  from expandLoop_spec[of now tza b ttl loc dur freq cnt until interval lim cur it evs]
  show "\<exists>r. expandLoop now tza b ttl loc dur freq cnt until interval lim cur it evs = Some r"
    by blast
qed

theorem parseICS_terminates_witness:
  "\<exists>r. parseICS codeUnitCompare newYear2026 newYear2026 0 stuckFeed = Some r"
  using parseICS_terminates [of codeUnitCompare newYear2026 newYear2026 0 stuckFeed] by blast

text \<open>
  On claim C5.  The quarterly rule starts on 1 February 2026 at 09:00, and the feed is
  parsed on a host at UTC while January ends: \<^verbatim>\<open>now\<close> is read in the last millisecond of
  31 January and \<^verbatim>\<open>expansionLimit\<close> in the first of 1 February.  Setting the day of the
  month of the second reading to 31 + 60 gives 2 May as the limit, and the occurrence
  of 1 May at 09:00 is generated, 89 days after the moment of parsing; the 60 days end
  on 2 April.
\<close>

theorem parseICS_limit_a_month_late:
  "rruleOf (veventBlocks quarterlyFeed ! 0) = ''FREQ=MONTHLY;INTERVAL=3'' \<and>
   parseICS codeUnitCompare monthEnd (monthEnd + 1) 0 quarterlyFeed =
     Some (Inr [eventAt 0 0 ''Quarterly'' ''No location'' (Some 3600000) 1769936400000 0,
                eventAt 0 0 ''Quarterly'' ''No location'' (Some 3600000) 1777626000000 1]) \<and>
   monthEnd + 1 + 60 * msPerDay = 1775088000000 \<and>
   monthEnd + 1 + 60 * msPerDay < 1777626000000 \<and>
   isoString 1777626000000 = ''2026-05-01T09:00:00.000Z'' \<and>
   expansionLimitOf monthEnd (monthEnd + 1) 0 = Some 1777680000000"
proof -
  have b: "veventBlocks quarterlyFeed = [quarterlyBlock]" by code_simp
  have c: "compareEvents codeUnitCompare
          (eventAt 0 0 ''Quarterly'' ''No location'' (Some 3600000) 1769936400000 0)
          (eventAt 0 0 ''Quarterly'' ''No location'' (Some 3600000) 1777626000000 1) \<le> 0"
    by code_simp
  have r: "rruleOf quarterlyBlock = ''FREQ=MONTHLY;INTERVAL=3''"
    "monthEnd + 1 + 60 * msPerDay = 1775088000000"
    "isoString 1777626000000 = ''2026-05-01T09:00:00.000Z''"
    "expansionLimitOf monthEnd (monthEnd + 1) 0 = Some 1777680000000"
    by code_simp+
  have "parseICS codeUnitCompare monthEnd (monthEnd + 1) 0 quarterlyFeed =
     Some (Inr [eventAt 0 0 ''Quarterly'' ''No location'' (Some 3600000) 1769936400000 0,
                eventAt 0 0 ''Quarterly'' ''No location'' (Some 3600000) 1777626000000 1])"
    using c parseICS_single_block[OF b quarterly_eval, of codeUnitCompare]
    by (simp add: sortBy_def)
  with b r show ?thesis by simp
qed

text \<open>
  Claim C9.  The ids of the events that \<^verbatim>\<open>parseICS\<close> returns are pairwise distinct.
\<close>

theorem parseICS_ids_distinct:
  assumes "parseICS localeCompare now now2 tza icsData = Some (Inr evs)"
  shows "distinct (map id_str evs)"
proof -
  from parseICS_Inr[OF assms] obtain evs0 where
    e0: "evs = sortBy (compareEvents localeCompare) evs0"
        "distinct (map (\<lambda>e. idKey (id_str e)) evs0)"
    by blast
  from e0(2) have "distinct evs0" "inj_on (idKey \<circ> id_str) (set evs0)"
    by (simp_all add: distinct_map comp_def)
  then have "distinct (map id_str evs0)"
    by (simp add: distinct_map inj_on_imageI2)
  with e0(1) show ?thesis by (simp add: distinct_map_sortBy)
qed

theorem parseICS_ids_distinct_witness:
  "parseICS codeUnitCompare newYear2026 newYear2026 0 fourWeeklyFeed =
     Some (Inr [eventAt 0 0 ''Review'' ''No location'' (Some 3600000) 1767603600000 0,
                eventAt 0 0 ''Review'' ''No location'' (Some 3600000) 1770022800000 1]) \<and>
   map id_str [eventAt 0 0 ''Review'' ''No location'' (Some 3600000) 1767603600000 0,
               eventAt 0 0 ''Review'' ''No location'' (Some 3600000) 1770022800000 1] =
     [''ics-0-0-1767603600000'', ''ics-0-1-1770022800000''] \<and>
   distinct (map id_str [eventAt 0 0 ''Review'' ''No location'' (Some 3600000) 1767603600000 0,
                         eventAt 0 0 ''Review'' ''No location'' (Some 3600000) 1770022800000 1])"
proof -
  have "map id_str [eventAt 0 0 ''Review'' ''No location'' (Some 3600000) 1767603600000 0,
                    eventAt 0 0 ''Review'' ''No location'' (Some 3600000) 1770022800000 1] =
          [''ics-0-0-1767603600000'', ''ics-0-1-1770022800000'']"
    by code_simp
  then show ?thesis
    using fourWeekly_parse parseICS_ids_distinct [OF fourWeekly_parse] by simp
qed

text \<open>
  On claim C2.  A daily rule with \<^verbatim>\<open>INTERVAL=0\<close>, no \<^verbatim>\<open>COUNT\<close> and no \<^verbatim>\<open>UNTIL\<close>, whose
  start lies four days ahead, never advances; the loop pushes the occurrences with
  indices 0 to 500 before its safety check, placed after the increment and testing
  \<^verbatim>\<open>iterations > 500\<close>, ends it.  The block contributes 501 events, one more than the
  ceiling of 500 (and the most a block can contribute, by \<open>expandLoop_at_most_501\<close>).
\<close>

theorem parseICS_stuck_rule_yields_501:
  "\<exists>evs. parseICS localeCompare newYear2026 newYear2026 0 stuckFeed = Some (Inr evs) \<and>
         length evs = 501"
proof -
  have b: "veventBlocks stuckFeed = [stuckBlock]" by code_simp
  show ?thesis
    using parseICS_single_block[OF b, of newYear2026 0 newYear2026 _ localeCompare] stuck_eval
    by (simp add: length_sortBy expansionLimitOf_same)
qed

text \<open>
  On claim C3.  With the host at UTC the round-trip example holds: one event, from
  10:00 to 11:00, dated 2099-01-01.  With the host eleven hours ahead of UTC the same
  feed gives the same local times, but the date 2098-12-31: the \<^verbatim>\<open>date\<close> field is the
  UTC calendar date of the start, not the local one (in general, by \<open>date_eventAt\<close>).
\<close>

theorem parseICS_date_is_utc_date:
  "parseICS localeCompare newYear2026 now2 0 standupFeed =
     Some (Inr [sampleEvent ''ics-0-0-4070944800000'' ''2099-01-01'' ''10:00'' ''11:00'']) \<and>
   parseICS localeCompare newYear2026 now2 (11 * msPerHour) standupFeed =
     Some (Inr [sampleEvent ''ics-0-0-4070905200000'' ''2098-12-31'' ''10:00'' ''11:00''])"
proof -
  have b: "veventBlocks standupFeed = [standupBlock]" by code_simp
  show ?thesis
    using parseICS_single_block[OF b, of newYear2026 0 now2 _ localeCompare]
          parseICS_single_block[OF b, of newYear2026 "11 * msPerHour" now2 _ localeCompare]
          standup_eval
    by (simp add: sortBy_def)
qed

section \<open>The upcoming-window filter: which events are kept\<close>

subsection \<open>Reading the fields\<close>















subsection \<open>The end instant\<close>









end
